theory Spec2Isabelle
  imports Main "HOL-Library.Sublist" "HOL-Library.AList" "HOL-Library.Char_ord"
    "HOL-Library.List_Lexorder" "HOL-Library.Multiset"
begin

section \<open>Python values and dictionaries\<close>

text \<open>
  The generator passes content around as Python dictionaries with string keys whose
  values come from YAML front matter, BibTeX fields and configuration objects. The
  values modelled here are \<open>None\<close>, booleans, integers, strings, lists and nested
  dictionaries (floats and dates are left out). A dictionary is an association list
  with distinct keys in insertion order, which is the order Python keeps.
\<close>

datatype pyval =
    PNone
  | PBool bool
  | PInt int
  | PStr string
  | PList "pyval list"
  | PDict "(string \<times> pyval) list"

type_synonym dict = "(string \<times> pyval) list"

datatype error = TypeError | ValueError | AttributeError | KeyError | OSError | OtherError

text \<open>Truth value of an object in a condition (\<open>if v:\<close>, \<open>a or b\<close>).\<close>

fun truthy :: "pyval \<Rightarrow> bool" where
  "truthy PNone = False"
| "truthy (PBool b) = b"
| "truthy (PInt i) = (i \<noteq> 0)"
| "truthy (PStr s) = (s \<noteq> [])"
| "truthy (PList vs) = (vs \<noteq> [])"
| "truthy (PDict kvs) = (kvs \<noteq> [])"

fun is_str :: "pyval \<Rightarrow> bool" where
  "is_str (PStr s) = True"
| "is_str v = False"

text \<open>\<open>d.get(k)\<close> is \<open>map_of d k\<close> with \<open>None\<close> for a missing key.\<close>

definition dict_get :: "dict \<Rightarrow> string \<Rightarrow> pyval" where
  "dict_get d k = (case map_of d k of None \<Rightarrow> PNone | Some v \<Rightarrow> v)"

definition dict_get_default :: "dict \<Rightarrow> string \<Rightarrow> pyval \<Rightarrow> pyval" where
  "dict_get_default d k dflt = (case map_of d k of None \<Rightarrow> dflt | Some v \<Rightarrow> v)"

definition has_key :: "dict \<Rightarrow> string \<Rightarrow> bool" where
  "has_key d k = (map_of d k \<noteq> None)"

text \<open>\<open>d[k] = v\<close>: an existing key keeps its position, a new key goes last.\<close>

definition dict_set :: "string \<Rightarrow> pyval \<Rightarrow> dict \<Rightarrow> dict" where
  "dict_set k v d = AList.update k v d"

text \<open>
  Hashing and equality of dictionary keys and set members: \<open>True == 1\<close> and
  \<open>False == 0\<close> hash alike, lists and dictionaries are unhashable (\<open>TypeError\<close>).
\<close>

fun hash_key :: "pyval \<Rightarrow> error + pyval" where
  "hash_key PNone = Inr PNone"
| "hash_key (PBool b) = Inr (PInt (if b then 1 else 0))"
| "hash_key (PInt i) = Inr (PInt i)"
| "hash_key (PStr s) = Inr (PStr s)"
| "hash_key (PList vs) = Inl TypeError"
| "hash_key (PDict kvs) = Inl TypeError"

fun hashable :: "pyval \<Rightarrow> bool" where
  "hashable (PList vs) = False"
| "hashable (PDict kvs) = False"
| "hashable v = True"

text \<open>The slice \<open>xs[:n]\<close>; a negative bound counts from the end.\<close>

definition slice_to :: "int \<Rightarrow> 'a list \<Rightarrow> 'a list" where
  "slice_to n xs = (if 0 \<le> n then take (nat n) xs else take (length xs - nat (- n)) xs)"

section \<open>Path resolution (utils.py, zenfolio.py)\<close>

text \<open>\<open>s.startswith((p1, p2, ...))\<close> and \<open>s.removeprefix(p)\<close>.\<close>

definition startswith :: "string \<Rightarrow> string list \<Rightarrow> bool" where
  "startswith s pres = list_ex (\<lambda>pre. prefix pre s) pres"

definition removeprefix :: "string \<Rightarrow> string \<Rightarrow> string" where
  "removeprefix pre s = (if prefix pre s then drop (length pre) s else s)"

definition is_external_url :: "string \<Rightarrow> bool" where
  "is_external_url path = startswith path [''http://'', ''https://'', ''mailto:'', ''tel:'']"

definition resolve_path :: "string \<Rightarrow> string" where
  "resolve_path path =
     (if is_external_url path then path else removeprefix ''static/'' path)"

section \<open>Homepage publication selection (zenfolio.py, \<open>_build_home_page\<close>)\<close>

definition highlighted_pubs :: "dict list \<Rightarrow> dict list" where
  "highlighted_pubs publications =
     filter (\<lambda>pub. truthy (dict_get_default pub ''highlight'' (PBool False))) publications"

definition recent_pubs :: "dict list \<Rightarrow> dict list" where
  "recent_pubs publications =
     filter (\<lambda>pub. \<not> truthy (dict_get_default pub ''highlight'' (PBool False))) publications"

text \<open>
  \<open>pub_count\<close> is \<open>site.homepage_publications_count\<close>, an \<open>Optional[int]\<close>.
\<close>

definition homepage_pubs :: "int option \<Rightarrow> dict list \<Rightarrow> dict list" where
  "homepage_pubs pub_count publications =
     (case pub_count of
        None \<Rightarrow> highlighted_pubs publications
      | Some n \<Rightarrow>
          (let hp = slice_to n (highlighted_pubs publications)
           in if int (length hp) < n
              then hp @ slice_to (n - int (length hp)) (recent_pubs publications)
              else hp))"

definition pub_section_title :: "dict list \<Rightarrow> string" where
  "pub_section_title publications =
     (if highlighted_pubs publications \<noteq> [] then ''Selected Publications''
      else ''Recent Publications'')"

section \<open>Parsers and the parser registry (parsers/base_parser.py)\<close>

text \<open>
  A \<open>Path\<close> is the list of its components; \<open>name\<close> is the last one and
  \<open>suffix\<close> the part of the name from its last dot, empty when the dot is the
  first or the last character of the name or there is none.
\<close>

type_synonym path = "string list"

definition path_name :: "path \<Rightarrow> string" where
  "path_name p = (if p = [] then [] else last p)"

text \<open>\<open>rfind_dot name\<close> is the index of the last dot of \<open>name\<close>, if any.\<close>

fun rfind_dot :: "string \<Rightarrow> nat option" where
  "rfind_dot [] = None"
| "rfind_dot (c # cs) =
     (case rfind_dot cs of
        Some i \<Rightarrow> Some (Suc i)
      | None \<Rightarrow> (if c = CHR ''.'' then Some 0 else None))"

definition suffix_of :: "path \<Rightarrow> string" where
  "suffix_of p =
     (let name = path_name p
      in case rfind_dot name of
           None \<Rightarrow> []
         | Some i \<Rightarrow> (if 0 < i \<and> Suc i < length name then drop i name else []))"

text \<open>\<open>str.lower\<close> on ASCII text: the letters A to Z move to a to z.\<close>

definition lower_char :: "char \<Rightarrow> char" where
  "lower_char c =
     (case map_of (zip ''ABCDEFGHIJKLMNOPQRSTUVWXYZ'' ''abcdefghijklmnopqrstuvwxyz'') c of
        Some d \<Rightarrow> d
      | None \<Rightarrow> c)"

definition lower :: "string \<Rightarrow> string" where
  "lower s = map lower_char s"

text \<open>
  A parser object. \<open>parser_id\<close> stands for the identity of the object, which is
  what \<open>parser not in self._parsers\<close> compares (the class defines no
  \<open>__eq__\<close>). The methods are fields; a method that can raise returns a sum. \<open>can_parse\<close> of the notebook parser opens the
  file and so can raise \<open>OSError\<close>. A content processor takes the text and the
  configured markdown extensions.
\<close>

record parser =
  parser_id :: nat
  supported_extensions :: "string list"
  content_types :: "string list"
  can_parse :: "path \<Rightarrow> error + bool"
  parse_file :: "path \<Rightarrow> error + dict"
  parse_directory :: "path \<Rightarrow> string \<Rightarrow> error + dict list"
  get_content_processor :: "pyval \<Rightarrow> (string \<Rightarrow> string list \<Rightarrow> error + string) option"

record registry =
  parsers :: "parser list"
  extension_map :: "(string \<times> parser list) list"

definition empty_registry :: registry where
  "empty_registry = \<lparr>parsers = [], extension_map = []\<rparr>"

text \<open>The loop over \<open>parser.supported_extensions\<close> in \<open>register\<close>.\<close>

fun add_extensions :: "parser \<Rightarrow> string list \<Rightarrow> (string \<times> parser list) list
    \<Rightarrow> (string \<times> parser list) list" where
  "add_extensions p [] m = m"
| "add_extensions p (ext # exts) m =
     (let m1 = (if map_of m ext = None then AList.update ext [] m else m);
          ps = (case map_of m1 ext of None \<Rightarrow> [] | Some qs \<Rightarrow> qs);
          m2 = (if parser_id p \<notin> set (map parser_id ps)
                then AList.update ext (ps @ [p]) m1 else m1)
      in add_extensions p exts m2)"

definition register :: "parser \<Rightarrow> registry \<Rightarrow> registry" where
  "register p reg =
     (if parser_id p \<notin> set (map parser_id (parsers reg))
      then \<lparr>parsers = parsers reg @ [p],
            extension_map = add_extensions p (supported_extensions p) (extension_map reg)\<rparr>
      else reg)"

text \<open>
  The two loops of \<open>get_parser_for_file\<close> share this search: the first parser
  whose \<open>can_parse\<close> returns true; an exception of \<open>can_parse\<close> propagates.
\<close>

fun first_can_parse :: "path \<Rightarrow> parser list \<Rightarrow> error + parser option" where
  "first_can_parse file_path [] = Inr None"
| "first_can_parse file_path (p # ps) =
     (case can_parse p file_path of
        Inl e \<Rightarrow> Inl e
      | Inr True \<Rightarrow> Inr (Some p)
      | Inr False \<Rightarrow> first_can_parse file_path ps)"

definition get_parser_for_file :: "registry \<Rightarrow> path \<Rightarrow> error + parser option" where
  "get_parser_for_file reg file_path =
     (let extension = lower (suffix_of file_path)
      in case (case map_of (extension_map reg) extension of
                 None \<Rightarrow> Inr None
               | Some ps \<Rightarrow> first_can_parse file_path ps) of
           Inl e \<Rightarrow> Inl e
         | Inr (Some p) \<Rightarrow> Inr (Some p)
         | Inr None \<Rightarrow> first_can_parse file_path (parsers reg))"

text \<open>
  \<open>content_type in p.content_types\<close> hashes the content type, so an unhashable
  one raises as soon as there is a parser to ask.
\<close>

definition get_parsers_for_content_type :: "registry \<Rightarrow> pyval \<Rightarrow> error + parser list" where
  "get_parsers_for_content_type reg content_type =
     (if parsers reg = [] then Inr []
      else case hash_key content_type of
             Inl e \<Rightarrow> Inl e
           | Inr k \<Rightarrow> Inr (filter (\<lambda>p. k \<in> PStr ` set (content_types p)) (parsers reg)))"

section \<open>Loading blog posts (content.py, \<open>_safe_parse_blog_posts\<close>)\<close>

text \<open>
  A raw post with a \<open>metadata\<close> dictionary is flattened into a copy of the
  metadata with \<open>content\<close> and \<open>content_type\<close> set from the raw post; a raw
  post without the key is taken as it is. Metadata that is not a dictionary makes the
  statement raise.
\<close>

definition flatten_post :: "dict \<Rightarrow> error + dict" where
  "flatten_post raw_post =
     (case map_of raw_post ''metadata'' of
        None \<Rightarrow> Inr raw_post
      | Some (PDict md) \<Rightarrow>
          Inr (dict_set ''content_type''
                 (dict_get_default raw_post ''content_type'' (PStr ''markdown''))
                 (dict_set ''content'' (dict_get_default raw_post ''content'' (PStr [])) md))
      | Some (PList vs) \<Rightarrow> Inl TypeError
      | Some v \<Rightarrow> Inl AttributeError)"

text \<open>
  The inner loop over one parser's raw posts: the posts appended before an exception
  stay in \<open>all_raw_posts\<close>, the rest of this parser's posts are lost.
\<close>

fun collect_posts :: "dict list \<Rightarrow> dict list" where
  "collect_posts [] = []"
| "collect_posts (raw_post # rest) =
     (case flatten_post raw_post of
        Inl e \<Rightarrow> []
      | Inr post \<Rightarrow> post # collect_posts rest)"

text \<open>One entry per blog parser, in registration order: what \<open>parse_directory\<close> gave.\<close>

definition all_raw_posts :: "(error + dict list) list \<Rightarrow> dict list" where
  "all_raw_posts results =
     concat (map (\<lambda>r. case r of Inl e \<Rightarrow> [] | Inr raw_posts \<Rightarrow> collect_posts raw_posts) results)"

definition slug_of :: "dict \<Rightarrow> pyval" where
  "slug_of post = dict_get post ''slug''"

text \<open>
  The deduplication loop with its \<open>seen_slugs\<close> set. The test
  \<open>slug and slug not in seen_slugs\<close> hashes a truthy slug only.
\<close>

fun unique_loop :: "pyval set \<Rightarrow> dict list \<Rightarrow> error + dict list" where
  "unique_loop seen_slugs [] = Inr []"
| "unique_loop seen_slugs (post # rest) =
     (if truthy (slug_of post)
      then (case hash_key (slug_of post) of
              Inl e \<Rightarrow> Inl e
            | Inr k \<Rightarrow>
                (if k \<notin> seen_slugs
                 then (case unique_loop (insert k seen_slugs) rest of
                         Inl e \<Rightarrow> Inl e
                       | Inr unique \<Rightarrow> Inr (post # unique))
                 else unique_loop seen_slugs rest))
      else unique_loop seen_slugs rest)"

definition unique_posts :: "dict list \<Rightarrow> error + dict list" where
  "unique_posts posts = unique_loop {} posts"

text \<open>
  \<open>BlogPost(**raw_post, content_raw=...)\<close> followed by \<open>to_dict()\<close>. The
  constructor is ZenCFG's and is a parameter \<open>ctor\<close>; the call itself raises
  \<open>TypeError\<close> when the raw post has a \<open>content_raw\<close> key already (the keyword
  is given twice).
\<close>

definition validate_post :: "(dict \<Rightarrow> error + dict) \<Rightarrow> dict \<Rightarrow> error + dict" where
  "validate_post ctor raw_post =
     (if has_key raw_post ''content_raw'' then Inl TypeError
      else ctor (raw_post @ [(''content_raw'', dict_get_default raw_post ''content'' (PStr []))]))"

fun validated_posts :: "(dict \<Rightarrow> error + dict) \<Rightarrow> dict list \<Rightarrow> dict list" where
  "validated_posts ctor [] = []"
| "validated_posts ctor (raw_post # rest) =
     (case validate_post ctor raw_post of
        Inl e \<Rightarrow> validated_posts ctor rest
      | Inr blog_post \<Rightarrow> blog_post # validated_posts ctor rest)"

text \<open>
  The loader. \<open>blog_dir_exists\<close> is the outcome of \<open>blog_dir.exists()\<close>; every
  exception that reaches the outer handler gives the empty list.
\<close>

definition safe_parse_blog_posts ::
    "registry \<Rightarrow> (dict \<Rightarrow> error + dict) \<Rightarrow> path \<Rightarrow> error + bool \<Rightarrow> dict list" where
  "safe_parse_blog_posts reg ctor blog_dir blog_dir_exists =
     (case blog_dir_exists of
        Inl e \<Rightarrow> []
      | Inr False \<Rightarrow> []
      | Inr True \<Rightarrow>
          (case get_parsers_for_content_type reg (PStr ''blog_post'') of
             Inl e \<Rightarrow> []
           | Inr blog_parsers \<Rightarrow>
               (case unique_posts
                       (all_raw_posts
                          (map (\<lambda>p. parse_directory p blog_dir ''blog_post'') blog_parsers)) of
                  Inl e \<Rightarrow> []
                | Inr unique \<Rightarrow> validated_posts ctor unique)))"

section \<open>Registries built by registration\<close>

text \<open>
  The registry is created empty and changed by \<open>register\<close> only, so every
  registry is \<open>registry_of ps\<close> for the parsers \<open>ps\<close> registered so far.
\<close>

definition registry_of :: "parser list \<Rightarrow> registry" where
  "registry_of ps = foldl (\<lambda>reg p. register p reg) empty_registry ps"

text \<open>The parsers that declare an extension, in registration order.\<close>

definition declaring :: "registry \<Rightarrow> string \<Rightarrow> parser list" where
  "declaring reg ext = filter (\<lambda>p. ext \<in> set (supported_extensions p)) (parsers reg)"

text \<open>The list stored under an extension, empty for an unknown extension.\<close>

definition ext_lookup :: "(string \<times> parser list) list \<Rightarrow> string \<Rightarrow> parser list" where
  "ext_lookup m ext = (case map_of m ext of None \<Rightarrow> [] | Some ps \<Rightarrow> ps)"

text \<open>The extension index agrees with the registered parsers.\<close>

definition reg_inv :: "registry \<Rightarrow> bool" where
  "reg_inv reg \<longleftrightarrow>
     (\<forall>e. ext_lookup (extension_map reg) e = declaring reg e)"

section \<open>Site configuration (models/site_config.py)\<close>

text \<open>
  The parts of the configuration the functions below read. The author attributes that
  the code tests with \<open>hasattr\<close> are optional; \<open>None\<close> is a missing attribute.
\<close>

record author_config =
  author_name :: string
  author_title :: "string option"
  author_affiliation :: "string option"
  author_interests :: "string list option"

record site_config =
  site_description :: string

record config =
  cfg_author :: "author_config option"
  cfg_site :: site_config

section \<open>Meta descriptions (seo_utils.py, \<open>generate_meta_description\<close>)\<close>

text \<open>\<open>sep.join(xs)\<close>.\<close>

fun join :: "string \<Rightarrow> string list \<Rightarrow> string" where
  "join sep [] = []"
| "join sep [x] = x"
| "join sep (x # y # ys) = x @ sep @ join sep (y # ys)"

text \<open>
  \<open>re.sub('<[^<]+?>', '', s)\<close>. A match starts at a \<open><\<close>, takes at least one
  character other than \<open><\<close> and ends at the first \<open>>\<close> after that character,
  provided no \<open><\<close> comes before it. \<open>scan_close\<close> looks for that closing
  character and returns what follows it; \<open>match_tag\<close> is given the text after the
  opening character.
\<close>

fun scan_close :: "string \<Rightarrow> string option" where
  "scan_close [] = None"
| "scan_close (c # cs) =
     (if c = CHR ''>'' then Some cs
      else if c = CHR ''<'' then None
      else scan_close cs)"

fun match_tag :: "string \<Rightarrow> string option" where
  "match_tag [] = None"
| "match_tag (c # cs) = (if c = CHR ''<'' then None else scan_close cs)"

function strip_tags :: "string \<Rightarrow> string" where
  "strip_tags [] = []"
| "strip_tags (c # cs) =
     (if c = CHR ''<''
      then (case match_tag cs of
              Some rest \<Rightarrow> strip_tags rest
            | None \<Rightarrow> c # strip_tags cs)
      else c # strip_tags cs)"
  by pat_completeness auto
termination
proof -
  have sc: "scan_close xs = Some r \<Longrightarrow> length r < length xs" for xs r
    by (induction xs) (auto split: if_splits)
  have mt: "match_tag xs = Some r \<Longrightarrow> length r < length xs" for xs r
    by (cases xs) (auto split: if_splits dest: sc)
  show ?thesis
    by (relation "measure length") (auto dest: mt)
qed

text \<open>The descriptions that interpolate the first three research interests.\<close>

definition with_interests :: "author_config \<Rightarrow> (string \<Rightarrow> string) \<Rightarrow> error + string" where
  "with_interests a f =
     (case author_interests a of
        None \<Rightarrow> Inl AttributeError
      | Some xs \<Rightarrow> Inr (f (join '', '' (take 3 xs))))"

text \<open>
  \<open>fmt\<close> is the text an f-string puts for a value. The first statement reads
  \<open>self.config.author.name\<close> whatever the page type is.
\<close>

definition generate_meta_description ::
    "(pyval \<Rightarrow> string) \<Rightarrow> config \<Rightarrow> string \<Rightarrow> dict option \<Rightarrow> error + string" where
  "generate_meta_description fmt cfg page_type item =
     (case cfg_author cfg of
        None \<Rightarrow> Inl AttributeError
      | Some a \<Rightarrow>
          (let name = author_name a;
               d = (case item of None \<Rightarrow> [] | Some kvs \<Rightarrow> kvs)
           in if page_type = ''homepage'' then Inr (site_description (cfg_site cfg))
              else if page_type = ''publications''
                then with_interests a (\<lambda>t. ''Research publications by '' @ name
                        @ '', covering '' @ t @ '' and more.'')
              else if page_type = ''blog''
                then with_interests a (\<lambda>t. ''Insights and thoughts on '' @ t
                        @ '' by '' @ name @ ''.'')
              else if page_type = ''blog_post'' \<and> d \<noteq> []
                then (if truthy (dict_get d ''excerpt'')
                      then (case dict_get d ''excerpt'' of
                              PStr excerpt \<Rightarrow>
                                (let clean_excerpt = strip_tags excerpt
                                 in Inr (take 155 clean_excerpt
                                      @ (if 155 < length clean_excerpt then ''...'' else [])))
                            | v \<Rightarrow> Inl TypeError)
                      else Inr (''A blog post by '' @ name @ '' about ''
                             @ fmt (dict_get_default d ''title'' (PStr ''research and development''))
                             @ ''.''))
              else if page_type = ''publication'' \<and> d \<noteq> []
                then Inr (''A '' @ fmt (dict_get_default d ''year'' (PStr ''recent''))
                       @ '' publication by '' @ name @ '' et al. in ''
                       @ fmt (dict_get_default d ''venue'' (PStr ''a leading journal''))
                       @ '', titled '' @ [CHR 0x27]
                       @ fmt (dict_get_default d ''title'' (PStr [])) @ [CHR 0x27] @ ''.'')
              else if page_type = ''projects''
                then with_interests a (\<lambda>t. ''Research projects and open-source contributions by ''
                        @ name @ '' in '' @ t @ ''.'')
              else if page_type = ''talks''
                then with_interests a (\<lambda>t. ''Conference talks and presentations by ''
                        @ name @ '' on '' @ t @ ''.'')
              else if page_type = ''news''
                then Inr (''Latest news and updates from '' @ name @ [CHR 0x27]
                       @ ''s research and academic activities.'')
              else Inr (site_description (cfg_site cfg))))"

section \<open>Grouped list pages (zenfolio.py, \<open>_build_list_page\<close>)\<close>

text \<open>
  \<open>int(v)\<close> on the modelled values. For a string: surrounding whitespace is
  dropped, one sign is allowed, then decimal digits follow, with single underscores
  allowed between digits, and at most \<open>max_str_digits\<close> digits. Anything else is a
  \<open>ValueError\<close>; \<open>None\<close>, lists and dictionaries are a \<open>TypeError\<close>.

  A character stands for the code point of the same number. The whitespace that
  \<open>int\<close> drops is the whitespace of the C locale (tab, line feed, vertical tab,
  form feed, carriage return, space) and the whitespace beyond ASCII, which among the
  code points below 256 is \<open>0x85\<close> and \<open>0xA0\<close>. The separators \<open>0x1C\<close> to
  \<open>0x1F\<close>, which \<open>str.strip\<close> would drop, are not dropped by \<open>int\<close>. No code
  point from 128 to 255 is a decimal digit.
\<close>

definition is_space :: "char \<Rightarrow> bool" where
  "is_space c \<longleftrightarrow>
     c \<in> set [CHR 0x09, CHR 0x0A, CHR 0x0B, CHR 0x0C, CHR 0x0D, CHR 0x20,
               CHR 0x85, CHR 0xA0]"

definition strip :: "string \<Rightarrow> string" where
  "strip s = rev (dropWhile is_space (rev (dropWhile is_space s)))"

definition digit_of :: "char \<Rightarrow> nat option" where
  "digit_of c = map_of (zip ''0123456789'' [0, 1, 2, 3, 4, 5, 6, 7, 8, 9]) c"

text \<open>
  \<open>parse_digits acc after_digit cs\<close>: \<open>after_digit\<close> says that the character just
  read was a digit, which is what an underscore and the end of the text require.
\<close>

fun parse_digits :: "nat \<Rightarrow> bool \<Rightarrow> string \<Rightarrow> nat option" where
  "parse_digits acc after_digit [] = (if after_digit then Some acc else None)"
| "parse_digits acc after_digit (c # cs) =
     (case digit_of c of
        Some d \<Rightarrow> parse_digits (acc * 10 + d) True cs
      | None \<Rightarrow>
          (if c = CHR ''_'' \<and> after_digit then parse_digits acc False cs else None))"

text \<open>
  The interpreter's default limit on the number of digits of a decimal text
  (\<open>sys.int_info.default_max_str_digits\<close>); a longer text is a \<open>ValueError\<close>.
\<close>

definition max_str_digits :: nat where
  "max_str_digits = 4300"

definition count_digits :: "string \<Rightarrow> nat" where
  "count_digits cs = length (filter (\<lambda>c. digit_of c \<noteq> None) cs)"

definition parse_number :: "string \<Rightarrow> nat option" where
  "parse_number cs =
     (if max_str_digits < count_digits cs then None else parse_digits 0 False cs)"

definition int_of_str :: "string \<Rightarrow> int option" where
  "int_of_str s =
     (case strip s of
        [] \<Rightarrow> None
      | c # cs \<Rightarrow>
          (if c = CHR ''-'' then map_option (\<lambda>n. - int n) (parse_number cs)
           else if c = CHR ''+'' then map_option int (parse_number cs)
           else map_option int (parse_number (c # cs))))"

fun py_int :: "pyval \<Rightarrow> error + int" where
  "py_int (PInt i) = Inr i"
| "py_int (PBool b) = Inr (if b then 1 else 0)"
| "py_int (PStr s) = (case int_of_str s of None \<Rightarrow> Inl ValueError | Some i \<Rightarrow> Inr i)"
| "py_int v = Inl TypeError"

text \<open>
  The grouping loop. \<open>grouped_items\<close> is a dictionary from key to item list; it is
  kept as an association list in insertion order whose entry for a key is found by
  hash and equality. A falsy key leaves the item out; an unhashable key raises.
\<close>

fun group_add :: "pyval \<Rightarrow> dict \<Rightarrow> (pyval \<times> dict list) list \<Rightarrow> (pyval \<times> dict list) list" where
  "group_add key item [] = [(key, [item])]"
| "group_add key item ((k, its) # rest) =
     (if hash_key k = hash_key key then (k, its @ [item]) # rest
      else (k, its) # group_add key item rest)"

fun group_loop :: "string \<Rightarrow> dict list \<Rightarrow> (pyval \<times> dict list) list
    \<Rightarrow> error + (pyval \<times> dict list) list" where
  "group_loop group_by [] grouped = Inr grouped"
| "group_loop group_by (item # items) grouped =
     (let key = dict_get item group_by
      in if truthy key
         then (case hash_key key of
                 Inl e \<Rightarrow> Inl e
               | Inr h \<Rightarrow> group_loop group_by items (group_add key item grouped))
         else group_loop group_by items grouped)"

text \<open>
  \<open>sorted(xs, key=f, reverse=True)\<close>: descending by key, items with equal keys in
  their original order.
\<close>

definition sorted_desc :: "('a \<Rightarrow> 'k::linorder) \<Rightarrow> 'a list \<Rightarrow> 'a list" where
  "sorted_desc f xs = rev (sort_key f (rev xs))"

definition int_key :: "pyval \<Rightarrow> int" where
  "int_key k = (case py_int k of Inr i \<Rightarrow> i | Inl e \<Rightarrow> 0)"

definition str_key :: "pyval \<Rightarrow> string" where
  "str_key k = (case k of PStr s \<Rightarrow> s | v \<Rightarrow> [])"

fun is_ok :: "error + 'a \<Rightarrow> bool" where
  "is_ok (Inr x) = True"
| "is_ok (Inl e) = False"

text \<open>
  The \<open>try\<close> sorts by \<open>int\<close>; when \<open>int\<close> fails on a key the handler sorts
  the keys themselves. The keys of \<open>grouped_items\<close> are truthy and hashable, so a
  key on which \<open>int\<close> fails is a string; comparing it with a key that is not a
  string raises \<open>TypeError\<close> inside the handler, which nothing catches.
\<close>

definition sorted_keys :: "pyval list \<Rightarrow> error + pyval list" where
  "sorted_keys keys =
     (if list_all (\<lambda>k. is_ok (py_int k)) keys then Inr (sorted_desc int_key keys)
      else if length keys \<le> 1 \<or> list_all is_str keys then Inr (sorted_desc str_key keys)
      else Inl TypeError)"

definition group_lookup :: "(pyval \<times> dict list) list \<Rightarrow> pyval \<Rightarrow> dict list" where
  "group_lookup grouped key =
     (case find (\<lambda>(k, its). hash_key k = hash_key key) grouped of
        Some (k, its) \<Rightarrow> its
      | None \<Rightarrow> [])"

text \<open>
  The branch \<open>if group_by:\<close> of \<open>_build_list_page\<close>:
  \<open>page_data['grouped_items']\<close> as a list of group name and items.
\<close>

definition grouped_items :: "string \<Rightarrow> dict list \<Rightarrow> error + (pyval \<times> dict list) list" where
  "grouped_items group_by processed_items =
     (case group_loop group_by processed_items [] of
        Inl e \<Rightarrow> Inl e
      | Inr grouped \<Rightarrow>
          (case sorted_keys (map fst grouped) of
             Inl e \<Rightarrow> Inl e
           | Inr ks \<Rightarrow> Inr (map (\<lambda>key. (key, group_lookup grouped key)) ks)))"

section \<open>The markdown parser (parsers/markdown_parser.py)\<close>

text \<open>
  \<open>file_exists\<close> is the file system, \<open>load\<close> is \<open>frontmatter.load\<close> (metadata
  and body, or an exception), \<open>markdown\<close> is \<open>markdown.markdown\<close> after
  \<open>textwrap.dedent\<close> and \<open>strip\<close>. \<open>parse_file\<close> returns the empty
  dictionary for a missing file and for a file that fails to load.
\<close>

definition markdown_parse_file ::
    "(path \<Rightarrow> bool) \<Rightarrow> (path \<Rightarrow> error + dict \<times> string) \<Rightarrow> path \<Rightarrow> error + dict" where
  "markdown_parse_file file_exists load file_path =
     (if \<not> file_exists file_path then Inr []
      else (case load file_path of
              Inl e \<Rightarrow> Inr []
            | Inr (metadata, content) \<Rightarrow>
                Inr [(''metadata'', PDict (if metadata \<noteq> [] then metadata else [])),
                     (''content'', PStr content)]))"

text \<open>
  The parser object; \<open>parse_dir\<close> stands for its \<open>parse_directory\<close>, which
  walks the directory.
\<close>

definition markdown_parser ::
    "nat \<Rightarrow> (path \<Rightarrow> bool) \<Rightarrow> (path \<Rightarrow> error + dict \<times> string)
     \<Rightarrow> (path \<Rightarrow> string \<Rightarrow> error + dict list)
     \<Rightarrow> (string \<Rightarrow> string list \<Rightarrow> error + string) \<Rightarrow> parser" where
  "markdown_parser pid file_exists load parse_dir markdown =
     \<lparr>parser_id = pid,
      supported_extensions = [''.md'', ''.markdown'', ''.mdown'', ''.mkd''],
      content_types = [''blog_post'', ''page'', ''bio''],
      can_parse = (\<lambda>file_path.
        Inr (lower (suffix_of file_path) \<in> set [''.md'', ''.markdown'', ''.mdown'', ''.mkd''])),
      parse_file = markdown_parse_file file_exists load,
      parse_directory = parse_dir,
      get_content_processor = (\<lambda>content_type. Some markdown)\<rparr>"

section \<open>Loading the bio (content.py, \<open>_safe_parse_bio_data\<close>)\<close>

text \<open>
  \<open>Bio().to_dict()\<close>: the declared fields of \<open>Bio\<close> with their defaults.
\<close>

definition bio_default :: dict where
  "bio_default = [(''bio'', PStr []), (''tagline'', PStr []), (''interests'', PList [])]"

text \<open>The dictionary built from the author section of the configuration.\<close>

definition config_bio :: "author_config \<Rightarrow> dict" where
  "config_bio a =
     [(''bio'', PStr []),
      (''interests'', (case author_interests a of Some xs \<Rightarrow> PList (map PStr xs) | None \<Rightarrow> PList [])),
      (''title'', (case author_title a of Some t \<Rightarrow> PStr t | None \<Rightarrow> PStr [])),
      (''affiliation'', (case author_affiliation a of Some t \<Rightarrow> PStr t | None \<Rightarrow> PStr []))]"

text \<open>
  The branch for a parsed file: \<open>Bio(**bio_data).to_dict()\<close>, with ZenCFG's
  constructor as the parameter \<open>bio_ctor\<close>.
\<close>

definition bio_from_raw :: "config \<Rightarrow> (dict \<Rightarrow> error + dict) \<Rightarrow> dict \<Rightarrow> error + dict" where
  "bio_from_raw cfg bio_ctor raw_data =
     (case dict_get_default raw_data ''metadata'' (PDict []) of
        PDict md \<Rightarrow>
          (let bio_data = dict_set ''bio'' (dict_get_default raw_data ''content'' (PStr [])) md
           in case cfg_author cfg of
                None \<Rightarrow> Inl AttributeError
              | Some a \<Rightarrow>
                  (case author_interests a of
                     Some xs \<Rightarrow> bio_ctor (dict_set ''interests'' (PList (map PStr xs)) bio_data)
                   | None \<Rightarrow>
                       bio_ctor (if has_key bio_data ''interests'' then bio_data
                                 else dict_set ''interests'' (PList []) bio_data)))
      | PList vs \<Rightarrow> Inl TypeError
      | v \<Rightarrow> Inl AttributeError)"

text \<open>The body of the \<open>try\<close>.\<close>

definition bio_body ::
    "registry \<Rightarrow> config \<Rightarrow> (dict \<Rightarrow> error + dict) \<Rightarrow> path \<Rightarrow> error + dict" where
  "bio_body reg cfg bio_ctor content_dir =
     (let index_path = content_dir @ [''index.md'']
      in case get_parser_for_file reg index_path of
           Inl e \<Rightarrow> Inl e
         | Inr parser \<Rightarrow>
             (case (case parser of
                      None \<Rightarrow> Inr None
                    | Some p \<Rightarrow>
                        (case parse_file p index_path of
                           Inl e \<Rightarrow> Inl e
                         | Inr raw_data \<Rightarrow>
                             (if raw_data \<noteq> []
                              then (case bio_from_raw cfg bio_ctor raw_data of
                                      Inl e \<Rightarrow> Inl e
                                    | Inr bio \<Rightarrow> Inr (Some bio))
                              else Inr None))) of
                Inl e \<Rightarrow> Inl e
              | Inr (Some bio) \<Rightarrow> Inr bio
              | Inr None \<Rightarrow>
                  (case cfg_author cfg of
                     Some a \<Rightarrow> Inr (config_bio a)
                   | None \<Rightarrow> Inr bio_default)))"

text \<open>Both handlers return the default.\<close>

definition safe_parse_bio_data ::
    "registry \<Rightarrow> config \<Rightarrow> (dict \<Rightarrow> error + dict) \<Rightarrow> path \<Rightarrow> error + dict" where
  "safe_parse_bio_data reg cfg bio_ctor content_dir =
     (case bio_body reg cfg bio_ctor content_dir of
        Inl e \<Rightarrow> Inr bio_default
      | Inr bio \<Rightarrow> Inr bio)"

section \<open>The item processor (zenfolio.py, \<open>_process_items\<close>)\<close>

text \<open>
  The two schema generators of the SEO generator that the item processor calls. They
  serialise with \<open>json.dumps\<close> and are taken as they come; either can raise.
\<close>

record seo_generator =
  scholarly_article_schema :: "dict \<Rightarrow> error + string"
  software_application_schema :: "dict \<Rightarrow> error + string"

text \<open>
  What the generator object holds for the item processor: the parser registry, the
  configured markdown extensions, the fallback markdown rendering
  (\<open>textwrap.dedent\<close>, \<open>strip\<close>, \<open>markdown.markdown\<close>) and the theme's
  \<open>render_component\<close>, which returns text for every template name it can look up.
\<close>

record generator =
  gen_registry :: registry
  gen_markdown_extensions :: "string list"
  gen_markdown :: "string \<Rightarrow> string list \<Rightarrow> error + string"
  gen_render_component :: "pyval \<Rightarrow> dict \<Rightarrow> seo_generator option \<Rightarrow> string"

definition path_fields :: "string list" where
  "path_fields =
     [''photo'', ''image'', ''paper'', ''code'', ''slides'', ''video'', ''website'', ''demo'',
      ''release_notes'', ''documentation'', ''tutorial_page'', ''materials'',
      ''project_page'', ''github'', ''cv'']"

text \<open>
  \<open>_resolve_item_paths\<close>: every non-empty string under a path field is resolved.
  \<open>resolve_path\<close> cannot raise on a string, so the handler that stores \<open>None\<close>
  is never entered.
\<close>

definition resolve_item_paths :: "dict \<Rightarrow> dict" where
  "resolve_item_paths item_dict =
     map (\<lambda>(key, v).
            (case v of
               PStr s \<Rightarrow> (if key \<in> set path_fields \<and> s \<noteq> [] then (key, PStr (resolve_path s))
                          else (key, v))
             | w \<Rightarrow> (key, v)))
         item_dict"

text \<open>
  \<open>_process_content_field\<close>: the first processor of a suitable parser that does
  not raise, else the fallback markdown rendering, else the content unchanged.
\<close>

fun try_processors :: "parser list \<Rightarrow> pyval \<Rightarrow> string \<Rightarrow> string list \<Rightarrow> string option" where
  "try_processors [] content_type content exts = None"
| "try_processors (p # ps) content_type content exts =
     (case get_content_processor p content_type of
        None \<Rightarrow> try_processors ps content_type content exts
      | Some processor \<Rightarrow>
          (case processor content exts of
             Inr r \<Rightarrow> Some r
           | Inl e \<Rightarrow> try_processors ps content_type content exts))"

definition process_content_field :: "generator \<Rightarrow> string \<Rightarrow> pyval \<Rightarrow> error + string" where
  "process_content_field g content content_type =
     (case get_parsers_for_content_type (gen_registry g) content_type of
        Inl e \<Rightarrow> Inl e
      | Inr suitable_parsers \<Rightarrow>
          (case try_processors suitable_parsers content_type content (gen_markdown_extensions g) of
             Some r \<Rightarrow> Inr r
           | None \<Rightarrow>
               (case gen_markdown g content (gen_markdown_extensions g) of
                  Inr r \<Rightarrow> Inr r
                | Inl e \<Rightarrow> Inr content)))"

text \<open>The loop over \<open>markdown_keys\<close>.\<close>

fun process_keys :: "generator \<Rightarrow> string \<Rightarrow> pyval \<Rightarrow> bool \<Rightarrow> string list \<Rightarrow> dict
    \<Rightarrow> error + dict" where
  "process_keys g item_type content_type skip [] item_dict = Inr item_dict"
| "process_keys g item_type content_type skip (key # keys) item_dict =
     (case dict_get item_dict key of
        PStr v \<Rightarrow>
          (if v = [] then process_keys g item_type content_type skip keys item_dict
           else if skip \<and> key = ''content''
             then process_keys g item_type content_type skip keys item_dict
           else if item_type = ''service_item'' \<and> key = ''description''
             then process_keys g item_type content_type skip keys item_dict
           else (case process_content_field g v content_type of
                   Inl e \<Rightarrow> Inl e
                 | Inr processed_content \<Rightarrow>
                     process_keys g item_type content_type skip keys
                       (dict_set key (PStr processed_content) item_dict)))
      | w \<Rightarrow> process_keys g item_type content_type skip keys item_dict)"

definition template_type_of :: "string \<Rightarrow> dict \<Rightarrow> pyval" where
  "template_type_of item_type item_dict =
     (if truthy (dict_get item_dict ''template_name'') then dict_get item_dict ''template_name''
      else PStr item_type)"

text \<open>
  The body of the loop for one item dictionary, in its five steps: keep the raw
  content, resolve paths, render the markdown fields, render the component, attach the
  schema.
\<close>

definition store_raw_content :: "dict \<Rightarrow> dict" where
  "store_raw_content item_dict =
     (if has_key item_dict ''content'' \<and> \<not> has_key item_dict ''content_raw''
      then dict_set ''content_raw'' (dict_get item_dict ''content'') item_dict
      else item_dict)"

definition process_markdown_fields :: "generator \<Rightarrow> string \<Rightarrow> dict \<Rightarrow> error + dict" where
  "process_markdown_fields g item_type item_dict =
     (let content_type = dict_get_default item_dict ''content_type'' (PStr item_type);
          skip = (item_type = ''blog_post_item'' \<or> content_type = PStr ''blog_post_item'')
      in process_keys g item_type content_type skip
           [''content'', ''description'', ''excerpt''] item_dict)"

text \<open>
  Looking the template up hashes its name, so an unhashable \<open>template_name\<close>
  raises. The component is rendered from the dictionary as it is at that moment.
\<close>

definition render_item ::
    "generator \<Rightarrow> string \<Rightarrow> seo_generator option \<Rightarrow> dict \<Rightarrow> error + dict" where
  "render_item g item_type seo item_dict =
     (let template_type = template_type_of item_type item_dict;
          d = dict_set ''template_type'' template_type item_dict
      in if truthy template_type
         then (case hash_key template_type of
                 Inl e \<Rightarrow> Inl e
               | Inr h \<Rightarrow>
                   Inr (dict_set ''rendered_html''
                          (PStr (gen_render_component g template_type d seo)) d))
         else Inr d)"

definition attach_schema :: "string \<Rightarrow> seo_generator option \<Rightarrow> dict \<Rightarrow> error + dict" where
  "attach_schema item_type seo item_dict =
     (let d = dict_set ''rendered_schema'' (PStr []) item_dict
      in case seo of
           None \<Rightarrow> Inr d
         | Some s \<Rightarrow>
             (if item_type = ''publication_item''
              then (case scholarly_article_schema s d of
                      Inl e \<Rightarrow> Inl e
                    | Inr js \<Rightarrow> Inr (dict_set ''rendered_schema'' (PStr js) d))
              else if item_type = ''project_item''
              then (case software_application_schema s d of
                      Inl e \<Rightarrow> Inl e
                    | Inr js \<Rightarrow> Inr (dict_set ''rendered_schema'' (PStr js) d))
              else Inr d))"

definition process_item ::
    "generator \<Rightarrow> string \<Rightarrow> seo_generator option \<Rightarrow> dict \<Rightarrow> error + dict" where
  "process_item g item_type seo item_dict =
     (case process_markdown_fields g item_type
             (resolve_item_paths (store_raw_content item_dict)) of
        Inl e \<Rightarrow> Inl e
      | Inr d3 \<Rightarrow>
          (case render_item g item_type seo d3 of
             Inl e \<Rightarrow> Inl e
           | Inr d5 \<Rightarrow> attach_schema item_type seo d5))"

text \<open>
  Items are objects. A dictionary is processed in place, so it is given by its address
  in a store of dictionaries; a typed entity yields a fresh dictionary from
  \<open>to_dict()\<close>; for anything else \<open>dict(item)\<close> yields a fresh dictionary or
  raises (\<open>TypeError\<close> for a value that is no sequence of pairs, \<open>ValueError\<close>
  for a sequence whose elements are not of length two), and the item is given by that
  outcome. The processed list holds the addresses of the processed dictionaries.
\<close>

datatype item = DictRef nat | Entity dict | Other "error + dict"

record store =
  objects :: "nat \<Rightarrow> dict"
  next_addr :: nat

definition alloc :: "dict \<Rightarrow> store \<Rightarrow> nat \<times> store" where
  "alloc d st =
     (next_addr st, \<lparr>objects = (objects st)(next_addr st := d), next_addr = Suc (next_addr st)\<rparr>)"

fun item_dict_of :: "item \<Rightarrow> store \<Rightarrow> error + nat \<times> store" where
  "item_dict_of (DictRef a) st = Inr (a, st)"
| "item_dict_of (Entity d) st = Inr (alloc d st)"
| "item_dict_of (Other (Inl e)) st = Inl e"
| "item_dict_of (Other (Inr d)) st = Inr (alloc d st)"

fun process_loop :: "generator \<Rightarrow> string \<Rightarrow> seo_generator option \<Rightarrow> item list \<Rightarrow> store
    \<Rightarrow> error + store \<times> nat list" where
  "process_loop g item_type seo [] st = Inr (st, [])"
| "process_loop g item_type seo (it # items) st =
     (case item_dict_of it st of
        Inl e \<Rightarrow> Inl e
      | Inr (a, st1) \<Rightarrow>
          (case process_item g item_type seo (objects st1 a) of
             Inl e \<Rightarrow> Inl e
           | Inr d \<Rightarrow>
               (case process_loop g item_type seo items
                       (st1\<lparr>objects := (objects st1)(a := d)\<rparr>) of
                  Inl e \<Rightarrow> Inl e
                | Inr (st2, processed) \<Rightarrow> Inr (st2, a # processed))))"

definition process_items :: "generator \<Rightarrow> string \<Rightarrow> seo_generator option \<Rightarrow> item list \<Rightarrow> store
    \<Rightarrow> error + store \<times> nat list" where
  "process_items g item_type seo items st =
     (if items = [] then Inr (st, []) else process_loop g item_type seo items st)"

text \<open>The keys that no step of the item processor writes.\<close>

definition untouched :: "string \<Rightarrow> bool" where
  "untouched k \<longleftrightarrow>
     k \<notin> set path_fields
     \<and> k \<notin> set [''content'', ''description'', ''excerpt'', ''content_raw'',
                   ''template_type'', ''rendered_html'', ''rendered_schema'']"


text \<open>
  An item dictionary on which nothing raises: its template name and its content type
  can be hashed. \<open>schemas_total\<close> says that the schema generators return.
\<close>

definition well_typed_item :: "dict \<Rightarrow> bool" where
  "well_typed_item d \<longleftrightarrow>
     hashable (dict_get d ''template_name'') \<and> hashable (dict_get d ''content_type'')"

definition schemas_total :: "seo_generator option \<Rightarrow> bool" where
  "schemas_total seo \<longleftrightarrow>
     (case seo of
        None \<Rightarrow> True
      | Some s \<Rightarrow> \<forall>d. is_ok (scholarly_article_schema s d)
                     \<and> is_ok (software_application_schema s d))"

fun item_ok :: "store \<Rightarrow> item \<Rightarrow> bool" where
  "item_ok st (DictRef a) = well_typed_item (objects st a)"
| "item_ok st (Entity d) = well_typed_item d"
| "item_ok st (Other (Inl e)) = False"
| "item_ok st (Other (Inr d)) = well_typed_item d"

text \<open>The list a call returns: the dictionaries at the returned addresses.\<close>

definition returned_items :: "error + store \<times> nat list \<Rightarrow> dict list" where
  "returned_items r = (case r of Inl e \<Rightarrow> [] | Inr (st, processed) \<Rightarrow> map (objects st) processed)"

text \<open>A second call on the same items, in the store the first call left.\<close>

definition process_again ::
    "generator \<Rightarrow> string \<Rightarrow> seo_generator option \<Rightarrow> item list \<Rightarrow> error + store \<times> nat list
     \<Rightarrow> error + store \<times> nat list" where
  "process_again g item_type seo items r =
     (case r of Inl e \<Rightarrow> Inl e | Inr (st, processed) \<Rightarrow> process_items g item_type seo items st)"

text \<open>
  The first step of \<open>_build_blog_post_pages\<close> for a processed post: the content is
  rendered again from \<open>content_raw\<close>, which for a validated blog post is a string.
  A value that is not a string makes the markdown rendering raise inside its handlers,
  and the value is stored back as it is.
\<close>

definition rerender_content :: "generator \<Rightarrow> dict \<Rightarrow> error + dict" where
  "rerender_content g post =
     (case map_of post ''content_raw'' of
        None \<Rightarrow> Inl KeyError
      | Some (PStr raw) \<Rightarrow>
          (case process_content_field g raw
                  (dict_get_default post ''content_type'' (PStr ''blog_post'')) of
             Inl e \<Rightarrow> Inl e
           | Inr html \<Rightarrow> Inr (dict_set ''content'' (PStr html) post))
      | Some v \<Rightarrow>
          (case get_parsers_for_content_type (gen_registry g)
                  (dict_get_default post ''content_type'' (PStr ''blog_post'')) of
             Inl e \<Rightarrow> Inl e
           | Inr suitable_parsers \<Rightarrow> Inr (dict_set ''content'' v post)))"

section \<open>Example data\<close>

text \<open>
  Five publications, two of them highlighted, in the order the bibliography parser
  returns them (year descending).
\<close>

definition example_pubs :: "dict list" where
  "example_pubs =
     [[(''title'', PStr ''A''), (''year'', PInt 2024), (''highlight'', PBool True)],
      [(''title'', PStr ''B''), (''year'', PInt 2023), (''highlight'', PBool False)],
      [(''title'', PStr ''C''), (''year'', PInt 2022), (''highlight'', PBool True)],
      [(''title'', PStr ''D''), (''year'', PInt 2021)],
      [(''title'', PStr ''E''), (''year'', PInt 2020), (''highlight'', PBool False)]]"

text \<open>
  Two parsers that both produce \<open>blog_post\<close>, registered markdown first. Both
  return a post with slug \<open>a\<close>; the markdown parser also returns a post with an
  empty slug. The second parser refuses to look at notebooks it cannot open. The
  constructor rejects the post titled \<open>Bad\<close>.
\<close>

definition example_md_parser :: parser where
  "example_md_parser =
     \<lparr>parser_id = 0,
      supported_extensions = [''.md'', ''.markdown'', ''.mdown'', ''.mkd''],
      content_types = [''blog_post'', ''page'', ''bio''],
      can_parse = (\<lambda>f. Inr (lower (suffix_of f) \<in> set [''.md'', ''.markdown'', ''.mdown'', ''.mkd''])),
      parse_file = (\<lambda>f. Inr []),
      parse_directory = (\<lambda>d t. Inr
        [[(''metadata'', PDict [(''title'', PStr ''From markdown''), (''slug'', PStr ''a'')]),
          (''content'', PStr ''one'')],
         [(''metadata'', PDict [(''title'', PStr ''No slug''), (''slug'', PStr [])]),
          (''content'', PStr ''two'')]]),
      get_content_processor = (\<lambda>t. None)\<rparr>"

definition example_nb_parser :: parser where
  "example_nb_parser =
     \<lparr>parser_id = 1,
      supported_extensions = [''.ipynb''],
      content_types = [''blog_post'', ''page'', ''notebook''],
      can_parse = (\<lambda>f. if lower (suffix_of f) = ''.ipynb'' then Inl OSError else Inr False),
      parse_file = (\<lambda>f. Inr []),
      parse_directory = (\<lambda>d t. Inr
        [[(''metadata'', PDict [(''title'', PStr ''From notebook''), (''slug'', PStr ''a'')]),
          (''content'', PStr ''three'')],
         [(''metadata'', PDict [(''title'', PStr ''Bad''), (''slug'', PStr ''b'')]),
          (''content'', PStr ''four'')],
         [(''metadata'', PDict [(''title'', PStr ''Other''), (''slug'', PStr ''c'')]),
          (''content'', PStr ''five'')]]),
      get_content_processor = (\<lambda>t. None)\<rparr>"

definition example_registry :: registry where
  "example_registry =
     register example_nb_parser (register example_md_parser empty_registry)"

definition example_ctor :: "dict \<Rightarrow> error + dict" where
  "example_ctor kwargs =
     (if dict_get kwargs ''title'' = PStr ''Bad'' then Inl ValueError else Inr kwargs)"

definition example_posts :: "dict list" where
  "example_posts =
     [[(''title'', PStr ''From markdown''), (''slug'', PStr ''a''),
       (''content'', PStr ''one''), (''content_type'', PStr ''markdown'')],
      [(''title'', PStr ''No slug''), (''slug'', PStr []),
       (''content'', PStr ''two''), (''content_type'', PStr ''markdown'')],
      [(''title'', PStr ''From notebook''), (''slug'', PStr ''a''),
       (''content'', PStr ''three''), (''content_type'', PStr ''markdown'')],
      [(''title'', PStr ''Bad''), (''slug'', PStr ''b''),
       (''content'', PStr ''four''), (''content_type'', PStr ''markdown'')],
      [(''title'', PStr ''Other''), (''slug'', PStr ''c''),
       (''content'', PStr ''five''), (''content_type'', PStr ''markdown'')]]"

definition example_config :: config where
  "example_config =
     \<lparr>cfg_author = Some \<lparr>author_name = ''Ada'', author_title = Some ''Professor'',
          author_affiliation = Some ''University'', author_interests = Some [''Logic'', ''Proof'']\<rparr>,
      cfg_site = \<lparr>site_description = ''Personal website of Ada''\<rparr>\<rparr>"

definition example_year_items :: "dict list" where
  "example_year_items =
     [[(''title'', PStr ''P1''), (''year'', PStr ''2019'')],
      [(''title'', PStr ''P2''), (''year'', PStr ''2023'')],
      [(''title'', PStr ''P3''), (''year'', PStr ''2021'')],
      [(''title'', PStr ''P4''), (''year'', PStr ''2023'')]]"

definition example_venue_items :: "dict list" where
  "example_venue_items =
     [[(''title'', PStr ''P1''), (''venue'', PStr ''icml'')],
      [(''title'', PStr ''P2''), (''venue'', PStr ''neurips'')],
      [(''title'', PStr ''P3''), (''venue'', PStr ''cvpr'')]]"

definition example_author :: author_config where
  "example_author =
     \<lparr>author_name = ''Ada'', author_title = Some ''Professor'',
      author_affiliation = Some ''University'', author_interests = Some [''Logic'', ''Proof'']\<rparr>"

definition example_generator :: generator where
  "example_generator =
     \<lparr>gen_registry = example_registry,
      gen_markdown_extensions = [''tables''],
      gen_markdown = (\<lambda>content exts. Inr (''<p>'' @ content @ ''</p>'')),
      gen_render_component = (\<lambda>name item_dict seo. ''<article></article>'')\<rparr>"

definition example_seo :: seo_generator where
  "example_seo =
     \<lparr>scholarly_article_schema = (\<lambda>d. Inr ''{scholarly}''),
      software_application_schema = (\<lambda>d. Inr ''{software}'')\<rparr>"

definition example_store :: store where
  "example_store =
     \<lparr>objects = (\<lambda>a. [])(0 := [(''title'', PStr ''Paper''), (''year'', PInt 2024),
                                 (''paper'', PStr ''static/papers/p.pdf'')],
                           1 := [(''title'', PStr ''Tool''), (''image'', PStr ''static/static/a.png''),
                                 (''description'', PStr ''*fast*''),
                                 (''template_name'', PStr ''project_item'')]),
      next_addr = 2\<rparr>"


definition example_post :: dict where
  "example_post =
     [(''title'', PStr ''Post''), (''slug'', PStr ''a''), (''excerpt'', PStr ''short''),
      (''content'', PStr ''# Hi''), (''content_type'', PStr ''markdown''),
      (''template_name'', PStr ''blog_post_item'')]"

definition example_post_once :: dict where
  "example_post_once =
     [(''title'', PStr ''Post''), (''slug'', PStr ''a''), (''excerpt'', PStr ''<p>short</p>''),
      (''content'', PStr ''# Hi''), (''content_type'', PStr ''markdown''),
      (''template_name'', PStr ''blog_post_item''), (''content_raw'', PStr ''# Hi''),
      (''template_type'', PStr ''blog_post_item''),
      (''rendered_html'', PStr ''<article></article>''), (''rendered_schema'', PStr [])]"

definition example_post_twice :: dict where
  "example_post_twice =
     [(''title'', PStr ''Post''), (''slug'', PStr ''a''),
      (''excerpt'', PStr ''<p><p>short</p></p>''),
      (''content'', PStr ''# Hi''), (''content_type'', PStr ''markdown''),
      (''template_name'', PStr ''blog_post_item''), (''content_raw'', PStr ''# Hi''),
      (''template_type'', PStr ''blog_post_item''),
      (''rendered_html'', PStr ''<article></article>''), (''rendered_schema'', PStr [])]"

section \<open>Properties\<close>

subsection \<open>Path resolution\<close>

lemma not_external_static: "\<not> is_external_url (''static/'' @ r)"
  by (simp add: is_external_url_def startswith_def)

text \<open>
  C7. \<open>resolve_path\<close> returns an external URL (one that starts with \<open>http://\<close>,
  \<open>https://\<close>, \<open>mailto:\<close> or \<open>tel:\<close>) unchanged; a local path that starts with
  \<open>static/\<close> loses that prefix and the remainder is returned; a local path without
  the prefix is returned unchanged; \<open>static/img.png\<close> and \<open>img.png\<close> both give
  \<open>img.png\<close>, and \<open>https://x.com/y\<close> is returned as it is.
\<close>

theorem resolve_path_spec:
  "(is_external_url p \<longleftrightarrow>
      prefix ''http://'' p \<or> prefix ''https://'' p \<or> prefix ''mailto:'' p \<or> prefix ''tel:'' p)
   \<and> (is_external_url p \<longrightarrow> resolve_path p = p)
   \<and> resolve_path (''static/'' @ r) = r
   \<and> (\<not> is_external_url p \<and> \<not> prefix ''static/'' p \<longrightarrow> resolve_path p = p)
   \<and> resolve_path ''https://x.com/y'' = ''https://x.com/y''
   \<and> resolve_path ''static/img.png'' = ''img.png''
   \<and> resolve_path ''img.png'' = ''img.png''"
proof -
  have ext: "is_external_url p \<longleftrightarrow>
      prefix ''http://'' p \<or> prefix ''https://'' p \<or> prefix ''mailto:'' p \<or> prefix ''tel:'' p"
    by (simp add: is_external_url_def startswith_def)
  have strip: "resolve_path (''static/'' @ r) = r"
    using not_external_static [of r]
    by (simp add: resolve_path_def removeprefix_def)
  have ex1: "resolve_path ''https://x.com/y'' = ''https://x.com/y''"
    by (simp add: resolve_path_def is_external_url_def startswith_def)
  have ex2: "resolve_path ''static/img.png'' = ''img.png''"
    by (simp add: resolve_path_def is_external_url_def startswith_def removeprefix_def)
  have ex3: "resolve_path ''img.png'' = ''img.png''"
    by (simp add: resolve_path_def is_external_url_def startswith_def removeprefix_def)
  show ?thesis
    using ext strip ex1 ex2 ex3 by (simp add: resolve_path_def removeprefix_def)
qed

theorem resolve_path_spec_witness:
  "is_external_url ''mailto:a@b.org'' \<and> resolve_path ''mailto:a@b.org'' = ''mailto:a@b.org''
   \<and> \<not> is_external_url ''docs/cv.pdf'' \<and> \<not> prefix ''static/'' ''docs/cv.pdf''
   \<and> resolve_path ''docs/cv.pdf'' = ''docs/cv.pdf''
   \<and> resolve_path (''static/'' @ ''a/b.png'') = ''a/b.png''"
  using resolve_path_spec [of "''mailto:a@b.org''" "''a/b.png''"]
        resolve_path_spec [of "''docs/cv.pdf''" "''a/b.png''"]
  by (simp add: is_external_url_def startswith_def)

subsection \<open>Homepage publication selection\<close>

lemma slice_to_nonneg: "0 \<le> n \<Longrightarrow> slice_to n xs = take (nat n) xs"
  by (simp add: slice_to_def)

lemma homepage_pubs_nonneg:
  assumes "0 \<le> n"
  shows "homepage_pubs (Some n) pubs =
     take (nat n) (highlighted_pubs pubs)
       @ take (nat n - length (take (nat n) (highlighted_pubs pubs))) (recent_pubs pubs)"
proof (cases "int (length (take (nat n) (highlighted_pubs pubs))) < n")
  case True
  then have "0 \<le> n - int (length (take (nat n) (highlighted_pubs pubs)))" by simp
  moreover have "nat (n - int (length (take (nat n) (highlighted_pubs pubs))))
      = nat n - length (take (nat n) (highlighted_pubs pubs))" by simp
  ultimately show ?thesis using assms True
    by (simp add: homepage_pubs_def Let_def slice_to_nonneg del: length_take)
next
  case False
  with assms have "nat n - length (take (nat n) (highlighted_pubs pubs)) = 0" by simp
  with assms False show ?thesis
    by (simp add: homepage_pubs_def Let_def slice_to_nonneg del: length_take)
qed

text \<open>
  A negative count is not a count; the slice then drops items from the end of the
  highlighted list and nothing is filled in.
\<close>

lemma homepage_pubs_negative:
  "n < 0 \<Longrightarrow> homepage_pubs (Some n) pubs =
     take (length (highlighted_pubs pubs) - nat (- n)) (highlighted_pubs pubs)"
  by (simp add: homepage_pubs_def Let_def slice_to_def)

text \<open>
  C1. Homepage publication selection. With a configured count \<open>n\<close> (a count, so
  \<open>0 \<le> n\<close>) the selection is the highlighted publications, in order, truncated to
  \<open>n\<close>, followed by as many non-highlighted publications, in order, as are needed to
  reach \<open>n\<close>; this is the first \<open>n\<close> items of the highlighted followed by the
  non-highlighted publications. With the count set to \<open>None\<close> the highlighted list
  is taken whole, without truncation. With two highlighted publications and a count of
  3 the selection is the two highlighted followed by the first (most recent)
  non-highlighted one.
\<close>

theorem homepage_pubs_spec:
  "homepage_pubs None pubs = highlighted_pubs pubs
   \<and> (0 \<le> n \<longrightarrow>
        homepage_pubs (Some n) pubs =
          take (nat n) (highlighted_pubs pubs)
            @ take (nat n - length (take (nat n) (highlighted_pubs pubs))) (recent_pubs pubs))
   \<and> (0 \<le> n \<longrightarrow>
        homepage_pubs (Some n) pubs = take (nat n) (highlighted_pubs pubs @ recent_pubs pubs))
   \<and> (0 \<le> n \<longrightarrow> length (homepage_pubs (Some n) pubs) = min (nat n) (length pubs))
   \<and> (length (highlighted_pubs pubs) = 2 \<and> recent_pubs pubs = r # rs \<longrightarrow>
        homepage_pubs (Some 3) pubs = highlighted_pubs pubs @ [r])"
proof -
  have len: "length (highlighted_pubs pubs) + length (recent_pubs pubs) = length pubs"
    unfolding highlighted_pubs_def recent_pubs_def by (rule sum_length_filter_compl)
  have a: "0 \<le> n \<Longrightarrow> homepage_pubs (Some n) pubs =
          take (nat n) (highlighted_pubs pubs)
            @ take (nat n - length (take (nat n) (highlighted_pubs pubs))) (recent_pubs pubs)"
    by (rule homepage_pubs_nonneg)
  have b: "take (nat n) (highlighted_pubs pubs)
            @ take (nat n - length (take (nat n) (highlighted_pubs pubs))) (recent_pubs pubs)
       = take (nat n) (highlighted_pubs pubs @ recent_pubs pubs)"
    by (cases "nat n \<le> length (highlighted_pubs pubs)") (simp_all add: min_def)
  have c: "0 \<le> n \<Longrightarrow> length (homepage_pubs (Some n) pubs) = min (nat n) (length pubs)"
    using a b len by simp
  have d: "length (highlighted_pubs pubs) = 2 \<Longrightarrow> recent_pubs pubs = r # rs \<Longrightarrow>
        homepage_pubs (Some 3) pubs = highlighted_pubs pubs @ [r]"
    using homepage_pubs_nonneg [of 3 pubs] by simp
  show ?thesis using a b c d by (simp add: homepage_pubs_def)
qed

theorem homepage_pubs_spec_witness:
  "(0::int) \<le> 3 \<and> length (highlighted_pubs example_pubs) = 2
   \<and> homepage_pubs (Some 3) example_pubs =
      [[(''title'', PStr ''A''), (''year'', PInt 2024), (''highlight'', PBool True)],
       [(''title'', PStr ''C''), (''year'', PInt 2022), (''highlight'', PBool True)],
       [(''title'', PStr ''B''), (''year'', PInt 2023), (''highlight'', PBool False)]]"
  using homepage_pubs_spec [of example_pubs 3]
  by (simp add: example_pubs_def highlighted_pubs_def recent_pubs_def dict_get_default_def)

subsection \<open>Blog post deduplication\<close>

lemma hash_key_truthy_falsy:
  "truthy a \<Longrightarrow> \<not> truthy b \<Longrightarrow> hash_key a = Inr k \<Longrightarrow> hash_key b \<noteq> Inr k"
  by (cases a; cases b) (auto split: if_splits)

lemma hash_key_error: "hash_key v = Inl e \<Longrightarrow> e = TypeError"
  by (cases v) auto

lemma hashable_iff: "hashable v \<longleftrightarrow> (\<exists>k. hash_key v = Inr k)"
  by (cases v) auto

lemma not_hashable_error: "\<not> hashable v \<Longrightarrow> hash_key v = Inl TypeError"
  by (cases v) auto

lemma unique_loop_subseq:
  "unique_loop S posts = Inr u \<Longrightarrow> subseq u posts"
proof (induction S posts arbitrary: u rule: unique_loop.induct)
  case (1 S)
  then show ?case by simp
next
  case (2 S post rest)
  then show ?case
    by (auto split: if_splits sum.splits)
qed

lemma unique_loop_kept:
  "unique_loop S posts = Inr u \<Longrightarrow> q \<in> set u \<Longrightarrow>
     truthy (slug_of q) \<and> (\<exists>k. hash_key (slug_of q) = Inr k \<and> k \<notin> S)"
proof (induction S posts arbitrary: u rule: unique_loop.induct)
  case (1 S)
  then show ?case by simp
next
  case (2 S post rest)
  then show ?case
    by (fastforce split: if_splits sum.splits)
qed

lemma unique_loop_distinct:
  "unique_loop S posts = Inr u \<Longrightarrow> distinct (map (\<lambda>p. hash_key (slug_of p)) u)"
proof (induction S posts arbitrary: u rule: unique_loop.induct)
  case (1 S)
  then show ?case by simp
next
  case (2 S post rest)
  show ?case
  proof (cases "truthy (slug_of post)")
    case False
    with 2 show ?thesis by simp
  next
    case True
    note tr = this
    show ?thesis
    proof (cases "hash_key (slug_of post)")
      case (Inl e)
      with tr 2 show ?thesis by simp
    next
      case (Inr k)
      show ?thesis
      proof (cases "k \<in> S")
        case True
        with tr Inr 2 show ?thesis by simp
      next
        case False
        with tr Inr 2 obtain u' where u': "unique_loop (insert k S) rest = Inr u'" "u = post # u'"
          by (auto split: sum.splits)
        have "distinct (map (\<lambda>p. hash_key (slug_of p)) u')"
          using 2(1) [OF tr Inr False u'(1)] .
        moreover have "hash_key (slug_of post) \<notin> set (map (\<lambda>p. hash_key (slug_of p)) u')"
        proof
          assume "hash_key (slug_of post) \<in> set (map (\<lambda>p. hash_key (slug_of p)) u')"
          then obtain p where p: "p \<in> set u'" "hash_key (slug_of p) = Inr k"
            using Inr by auto
          from unique_loop_kept [OF u'(1) p(1)] p(2) show False by auto
        qed
        ultimately show ?thesis using u'(2) by simp
      qed
    qed
  qed
qed

lemma unique_loop_first:
  "unique_loop S posts = Inr u \<Longrightarrow> q \<in> set u \<Longrightarrow>
     find (\<lambda>x. hash_key (slug_of x) = hash_key (slug_of q)) posts = Some q"
proof (induction S posts arbitrary: u rule: unique_loop.induct)
  case (1 S)
  then show ?case by simp
next
  case (2 S post rest)
  from unique_loop_kept [OF 2(4) 2(5)] obtain kq where
    kq: "truthy (slug_of q)" "hash_key (slug_of q) = Inr kq" "kq \<notin> S" by auto
  show ?case
  proof (cases "truthy (slug_of post)")
    case False
    then have "hash_key (slug_of post) \<noteq> hash_key (slug_of q)"
      using hash_key_truthy_falsy [OF kq(1) False kq(2)] kq(2) by simp
    moreover have "unique_loop S rest = Inr u" using 2(4) False by simp
    ultimately show ?thesis using 2(3) [OF False _ 2(5)] by simp
  next
    case True
    note tr = this
    show ?thesis
    proof (cases "hash_key (slug_of post)")
      case (Inl e)
      with tr 2 show ?thesis by simp
    next
      case (Inr k)
      show ?thesis
      proof (cases "k \<in> S")
        case True
        then have "k \<noteq> kq" using kq(3) by auto
        moreover have "unique_loop S rest = Inr u" using 2(4) tr Inr True by simp
        ultimately show ?thesis using 2(2) [OF tr Inr _ _ 2(5)] True Inr kq(2) by simp
      next
        case False
        with tr Inr 2(4) obtain u' where u': "unique_loop (insert k S) rest = Inr u'" "u = post # u'"
          by (auto split: sum.splits)
        show ?thesis
        proof (cases "q = post")
          case True
          then show ?thesis by simp
        next
          case False
          then have qu: "q \<in> set u'" using 2(5) u'(2) by simp
          from unique_loop_kept [OF u'(1) qu] kq(2) have "kq \<noteq> k" by auto
          then show ?thesis
            using 2(1) [OF tr Inr \<open>k \<notin> S\<close> u'(1) qu] Inr kq(2) by simp
        qed
      qed
    qed
  qed
qed

lemma unique_loop_covers:
  "unique_loop S posts = Inr u \<Longrightarrow> p \<in> set posts \<Longrightarrow> truthy (slug_of p) \<Longrightarrow>
     hash_key (slug_of p) = Inr k \<Longrightarrow> k \<notin> S \<Longrightarrow>
     \<exists>q\<in>set u. hash_key (slug_of q) = Inr k"
proof (induction S posts arbitrary: u rule: unique_loop.induct)
  case (1 S)
  then show ?case by simp
next
  case (2 S post rest)
  show ?case
  proof (cases "truthy (slug_of post)")
    case False
    then have "p \<noteq> post" using 2(6) by auto
    then have "p \<in> set rest" using 2(5) by simp
    moreover have "unique_loop S rest = Inr u" using 2(4) False by simp
    ultimately show ?thesis using 2(3) [OF False _ _ 2(6) 2(7) 2(8)] by simp
  next
    case True
    note tr = this
    show ?thesis
    proof (cases "hash_key (slug_of post)")
      case (Inl e)
      with tr 2 show ?thesis by simp
    next
      case (Inr k')
      show ?thesis
      proof (cases "k' \<in> S")
        case True
        then have "p \<noteq> post" using 2(7) 2(8) Inr by auto
        then have "p \<in> set rest" using 2(5) by simp
        moreover have "unique_loop S rest = Inr u" using 2(4) tr Inr True by simp
        ultimately show ?thesis using 2(2) [OF tr Inr _ _ _ 2(6) 2(7) 2(8)] True by simp
      next
        case False
        with tr Inr 2(4) obtain u' where u': "unique_loop (insert k' S) rest = Inr u'" "u = post # u'"
          by (auto split: sum.splits)
        show ?thesis
        proof (cases "k = k'")
          case True
          then show ?thesis using u'(2) Inr by simp
        next
          case False
          then have "p \<noteq> post" using 2(7) Inr by auto
          then have "p \<in> set rest" using 2(5) by simp
          moreover have "k \<notin> insert k' S" using False 2(8) by simp
          ultimately show ?thesis
            using 2(1) [OF tr Inr \<open>k' \<notin> S\<close> u'(1) _ 2(6) 2(7)] u'(2) by auto
        qed
      qed
    qed
  qed
qed

lemma unique_loop_total:
  "(\<forall>p\<in>set posts. truthy (slug_of p) \<longrightarrow> hashable (slug_of p)) \<Longrightarrow>
     \<exists>u. unique_loop S posts = Inr u"
proof (induction S posts rule: unique_loop.induct)
  case (1 S)
  then show ?case by simp
next
  case (2 S post rest)
  have all: "\<forall>p\<in>set rest. truthy (slug_of p) \<longrightarrow> hashable (slug_of p)"
    using 2(4) by simp
  show ?case
  proof (cases "truthy (slug_of post)")
    case False
    with 2(3) [OF False all] show ?thesis by simp
  next
    case True
    then have "hashable (slug_of post)" using 2(4) by simp
    then obtain k where k: "hash_key (slug_of post) = Inr k" by (auto simp: hashable_iff)
    show ?thesis
    proof (cases "k \<in> S")
      case True
      then have "\<not> k \<notin> S" by simp
      from 2(2) [OF \<open>truthy (slug_of post)\<close> k this all] k \<open>truthy (slug_of post)\<close> True
      show ?thesis by simp
    next
      case False
      with 2(1) [OF \<open>truthy (slug_of post)\<close> k False all] k \<open>truthy (slug_of post)\<close>
      show ?thesis by auto
    qed
  qed
qed

lemma unique_loop_error:
  "p \<in> set posts \<Longrightarrow> truthy (slug_of p) \<Longrightarrow> \<not> hashable (slug_of p) \<Longrightarrow>
     unique_loop S posts = Inl TypeError"
proof (induction S posts rule: unique_loop.induct)
  case (1 S)
  then show ?case by simp
next
  case (2 S post rest)
  show ?case
  proof (cases "p = post")
    case True
    then show ?thesis using 2(5) 2(6) not_hashable_error by simp
  next
    case False
    then have "p \<in> set rest" using 2(4) by simp
    then show ?thesis using 2
      by (auto split: sum.splits simp: not_hashable_error dest: hash_key_error)
  qed
qed

lemma unique_loop_filter:
  "unique_loop S (filter (\<lambda>p. truthy (slug_of p)) posts) = unique_loop S posts"
  by (induction S posts rule: unique_loop.induct) (auto split: sum.splits)

lemma validated_posts_append:
  "validated_posts ctor (xs @ ys) = validated_posts ctor xs @ validated_posts ctor ys"
  by (induction xs) (auto split: sum.splits)

lemma validated_posts_set:
  "set (validated_posts ctor u) = {d. \<exists>p\<in>set u. validate_post ctor p = Inr d}"
  by (induction u) (auto split: sum.splits)

lemma get_parsers_str:
  "get_parsers_for_content_type reg (PStr t)
     = Inr (filter (\<lambda>p. t \<in> set (content_types p)) (parsers reg))"
proof -
  have "filter (\<lambda>p. PStr t \<in> PStr ` set (content_types p)) (parsers reg)
      = filter (\<lambda>p. t \<in> set (content_types p)) (parsers reg)"
    by (rule filter_cong) auto
  then show ?thesis by (simp add: get_parsers_for_content_type_def)
qed

lemma example_ids: "parser_id example_md_parser = 0" "parser_id example_nb_parser = 1"
  by (simp_all add: example_md_parser_def example_nb_parser_def)

lemma example_registry_parsers:
  "parsers example_registry = [example_md_parser, example_nb_parser]"
  by (simp add: example_registry_def register_def empty_registry_def example_ids)

lemma example_content_types:
  "content_types example_md_parser = [''blog_post'', ''page'', ''bio'']"
  "content_types example_nb_parser = [''blog_post'', ''page'', ''notebook'']"
  by (simp_all add: example_md_parser_def example_nb_parser_def)

lemma example_all_raw_posts:
  "all_raw_posts (map (\<lambda>p. parse_directory p [''site'', ''blog''] ''blog_post'')
      (filter (\<lambda>p. ''blog_post'' \<in> set (content_types p)) (parsers example_registry)))
   = example_posts"
  by (simp add: example_registry_parsers example_content_types all_raw_posts_def
      flatten_post_def dict_set_def dict_get_default_def example_posts_def
      example_md_parser_def example_nb_parser_def)

lemma example_unique_posts:
  "unique_posts example_posts =
     Inr [[(''title'', PStr ''From markdown''), (''slug'', PStr ''a''),
           (''content'', PStr ''one''), (''content_type'', PStr ''markdown'')],
          [(''title'', PStr ''Bad''), (''slug'', PStr ''b''),
           (''content'', PStr ''four''), (''content_type'', PStr ''markdown'')],
          [(''title'', PStr ''Other''), (''slug'', PStr ''c''),
           (''content'', PStr ''five''), (''content_type'', PStr ''markdown'')]]"
  by (simp add: unique_posts_def example_posts_def slug_of_def dict_get_def)

lemma safe_parse_blog_posts_eq:
  assumes "unique_posts (all_raw_posts (map (\<lambda>p. parse_directory p blog_dir ''blog_post'')
              (filter (\<lambda>p. ''blog_post'' \<in> set (content_types p)) (parsers reg)))) = r"
  shows "safe_parse_blog_posts reg ctor blog_dir (Inr True) =
       (case r of Inl e \<Rightarrow> [] | Inr u \<Rightarrow> validated_posts ctor u)"
  using assms by (simp add: safe_parse_blog_posts_def get_parsers_str)

lemma unique_loop_member:
  "unique_loop S posts = Inr u \<Longrightarrow> q \<in> set u \<Longrightarrow> q \<in> set posts"
  using unique_loop_subseq [of S posts u] list_emb_set [of "(=)" u posts q] by auto

text \<open>
  C2. Blog post deduplication. The raw posts of the parsers that produce
  \<open>blog_post\<close> are merged in registration order. When every non-empty slug is
  hashable the loader keeps, for each slug value, exactly the first post that carries
  it: the kept posts are a subsequence of the merged posts, no two of them have the same
  slug, each one is the first post of the merged sequence with its slug, and every
  non-empty slug of the merged sequence is represented. The loader's result is the
  validation of the kept posts, in which a post whose construction fails is skipped and
  the posts before and after it are validated as they would be without it.
\<close>

theorem blog_dedup_first_wins:
  assumes "\<forall>p\<in>set posts. truthy (slug_of p) \<longrightarrow> hashable (slug_of p)"
  shows "\<exists>u. unique_posts posts = Inr u
     \<and> subseq u posts
     \<and> distinct (map (\<lambda>p. hash_key (slug_of p)) u)
     \<and> (\<forall>q\<in>set u. truthy (slug_of q)
            \<and> find (\<lambda>x. hash_key (slug_of x) = hash_key (slug_of q)) posts = Some q)
     \<and> (\<forall>p\<in>set posts. truthy (slug_of p) \<longrightarrow>
            (\<exists>q\<in>set u. hash_key (slug_of q) = hash_key (slug_of p)))
     \<and> (posts = all_raw_posts (map (\<lambda>p. parse_directory p blog_dir ''blog_post'')
              (filter (\<lambda>p. ''blog_post'' \<in> set (content_types p)) (parsers reg)))
          \<longrightarrow> safe_parse_blog_posts reg ctor blog_dir (Inr True) = validated_posts ctor u)
     \<and> (validate_post ctor post = Inl e \<longrightarrow>
           validated_posts ctor (xs @ post # ys)
             = validated_posts ctor xs @ validated_posts ctor ys)
     \<and> (validate_post ctor post = Inr d \<longrightarrow>
           validated_posts ctor (xs @ post # ys)
             = validated_posts ctor xs @ d # validated_posts ctor ys)"
proof -
  from unique_loop_total [OF assms, of "{}"] obtain u where u: "unique_loop {} posts = Inr u" ..
  have 1: "subseq u posts" using unique_loop_subseq [OF u] .
  have 2: "distinct (map (\<lambda>p. hash_key (slug_of p)) u)" using unique_loop_distinct [OF u] .
  have 3: "\<forall>q\<in>set u. truthy (slug_of q)
            \<and> find (\<lambda>x. hash_key (slug_of x) = hash_key (slug_of q)) posts = Some q"
    using unique_loop_kept [OF u] unique_loop_first [OF u] by blast
  have 4: "\<forall>p\<in>set posts. truthy (slug_of p) \<longrightarrow>
            (\<exists>q\<in>set u. hash_key (slug_of q) = hash_key (slug_of p))"
  proof (intro ballI impI)
    fix p assume p: "p \<in> set posts" "truthy (slug_of p)"
    then have "hashable (slug_of p)" using assms by simp
    then obtain k where k: "hash_key (slug_of p) = Inr k" by (auto simp: hashable_iff)
    from unique_loop_covers [OF u p k] k
    show "\<exists>q\<in>set u. hash_key (slug_of q) = hash_key (slug_of p)" by simp
  qed
  have 5: "posts = all_raw_posts (map (\<lambda>p. parse_directory p blog_dir ''blog_post'')
              (filter (\<lambda>p. ''blog_post'' \<in> set (content_types p)) (parsers reg)))
          \<longrightarrow> safe_parse_blog_posts reg ctor blog_dir (Inr True) = validated_posts ctor u"
  proof
    assume e: "posts = all_raw_posts (map (\<lambda>p. parse_directory p blog_dir ''blog_post'')
              (filter (\<lambda>p. ''blog_post'' \<in> set (content_types p)) (parsers reg)))"
    from u have "unique_posts posts = Inr u" by (simp add: unique_posts_def)
    then show "safe_parse_blog_posts reg ctor blog_dir (Inr True) = validated_posts ctor u"
      unfolding e by (simp add: safe_parse_blog_posts_def get_parsers_str)
  qed
  have 6: "validate_post ctor post = Inl e \<longrightarrow>
           validated_posts ctor (xs @ post # ys)
             = validated_posts ctor xs @ validated_posts ctor ys"
    by (simp add: validated_posts_append)
  have 7: "validate_post ctor post = Inr d \<longrightarrow>
           validated_posts ctor (xs @ post # ys)
             = validated_posts ctor xs @ d # validated_posts ctor ys"
    by (simp add: validated_posts_append)
  from u 1 2 3 4 5 6 7 show ?thesis unfolding unique_posts_def by blast
qed

theorem blog_dedup_first_wins_witness:
  "list_all (\<lambda>p. hashable (slug_of p)) example_posts
   \<and> all_raw_posts (map (\<lambda>p. parse_directory p [''site'', ''blog''] ''blog_post'')
        (filter (\<lambda>p. ''blog_post'' \<in> set (content_types p)) (parsers example_registry)))
      = example_posts
   \<and> unique_posts example_posts =
       Inr [[(''title'', PStr ''From markdown''), (''slug'', PStr ''a''),
             (''content'', PStr ''one''), (''content_type'', PStr ''markdown'')],
            [(''title'', PStr ''Bad''), (''slug'', PStr ''b''),
             (''content'', PStr ''four''), (''content_type'', PStr ''markdown'')],
            [(''title'', PStr ''Other''), (''slug'', PStr ''c''),
             (''content'', PStr ''five''), (''content_type'', PStr ''markdown'')]]
   \<and> safe_parse_blog_posts example_registry example_ctor [''site'', ''blog''] (Inr True) =
       [[(''title'', PStr ''From markdown''), (''slug'', PStr ''a''),
         (''content'', PStr ''one''), (''content_type'', PStr ''markdown''),
         (''content_raw'', PStr ''one'')],
        [(''title'', PStr ''Other''), (''slug'', PStr ''c''),
         (''content'', PStr ''five''), (''content_type'', PStr ''markdown''),
         (''content_raw'', PStr ''five'')]]"
proof -
  have h: "\<forall>p\<in>set example_posts. truthy (slug_of p) \<longrightarrow> hashable (slug_of p)"
    by (simp add: example_posts_def slug_of_def dict_get_def)
  have a: "list_all (\<lambda>p. hashable (slug_of p)) example_posts"
    by (simp add: example_posts_def slug_of_def dict_get_def)
  from blog_dedup_first_wins [OF h, of "[''site'', ''blog'']" example_registry example_ctor]
  obtain u where u: "unique_posts example_posts = Inr u"
    and l: "example_posts = all_raw_posts (map (\<lambda>p. parse_directory p [''site'', ''blog''] ''blog_post'')
              (filter (\<lambda>p. ''blog_post'' \<in> set (content_types p)) (parsers example_registry)))
          \<longrightarrow> safe_parse_blog_posts example_registry example_ctor [''site'', ''blog''] (Inr True)
               = validated_posts example_ctor u"
    by blast
  from l example_all_raw_posts
  have "safe_parse_blog_posts example_registry example_ctor [''site'', ''blog''] (Inr True)
               = validated_posts example_ctor u" by simp
  moreover from u example_unique_posts have "u = [[(''title'', PStr ''From markdown''), (''slug'', PStr ''a''),
             (''content'', PStr ''one''), (''content_type'', PStr ''markdown'')],
            [(''title'', PStr ''Bad''), (''slug'', PStr ''b''),
             (''content'', PStr ''four''), (''content_type'', PStr ''markdown'')],
            [(''title'', PStr ''Other''), (''slug'', PStr ''c''),
             (''content'', PStr ''five''), (''content_type'', PStr ''markdown'')]]" by simp
  ultimately have "safe_parse_blog_posts example_registry example_ctor [''site'', ''blog''] (Inr True) =
       [[(''title'', PStr ''From markdown''), (''slug'', PStr ''a''),
         (''content'', PStr ''one''), (''content_type'', PStr ''markdown''),
         (''content_raw'', PStr ''one'')],
        [(''title'', PStr ''Other''), (''slug'', PStr ''c''),
         (''content'', PStr ''five''), (''content_type'', PStr ''markdown''),
         (''content_raw'', PStr ''five'')]]"
    by (simp add: validate_post_def has_key_def example_ctor_def dict_get_def dict_get_default_def)
  with a example_all_raw_posts example_unique_posts show ?thesis by simp
qed

text \<open>
  C9. A post whose slug is missing or empty is dropped by the deduplication: a missing,
  \<open>None\<close> or empty slug is falsy, every kept post has a truthy slug, a post with a
  falsy slug is not among the kept posts, removing such posts beforehand changes
  nothing, and every entry of the loader's result is the validation of a merged raw post
  with a non-empty slug.
\<close>

theorem blog_posts_need_slug:
  "(\<not> has_key post ''slug'' \<or> slug_of post = PNone \<or> slug_of post = PStr []
       \<longrightarrow> \<not> truthy (slug_of post))
   \<and> (unique_posts posts = Inr u \<longrightarrow> (\<forall>q\<in>set u. truthy (slug_of q) \<and> q \<in> set posts))
   \<and> (unique_posts posts = Inr u \<and> \<not> truthy (slug_of post) \<longrightarrow> post \<notin> set u)
   \<and> unique_posts (filter (\<lambda>p. truthy (slug_of p)) posts) = unique_posts posts
   \<and> (\<forall>d\<in>set (safe_parse_blog_posts reg ctor blog_dir dir_exists).
         \<exists>p\<in>set (all_raw_posts (map (\<lambda>p. parse_directory p blog_dir ''blog_post'')
                    (filter (\<lambda>p. ''blog_post'' \<in> set (content_types p)) (parsers reg)))).
           truthy (slug_of p) \<and> validate_post ctor p = Inr d)"
proof -
  have 1: "\<not> has_key post ''slug'' \<or> slug_of post = PNone \<or> slug_of post = PStr []
       \<longrightarrow> \<not> truthy (slug_of post)"
    by (auto simp: has_key_def slug_of_def dict_get_def)
  have 2: "unique_posts posts = Inr u \<longrightarrow> (\<forall>q\<in>set u. truthy (slug_of q) \<and> q \<in> set posts)"
    using unique_loop_kept [of "{}" posts u] unique_loop_member [of "{}" posts u]
    by (auto simp: unique_posts_def)
  have 3: "unique_posts posts = Inr u \<and> \<not> truthy (slug_of post) \<longrightarrow> post \<notin> set u"
    using 2 by auto
  have 4: "unique_posts (filter (\<lambda>p. truthy (slug_of p)) posts) = unique_posts posts"
    by (simp add: unique_posts_def unique_loop_filter)
  let ?all = "all_raw_posts (map (\<lambda>p. parse_directory p blog_dir ''blog_post'')
                    (filter (\<lambda>p. ''blog_post'' \<in> set (content_types p)) (parsers reg)))"
  have 5: "\<forall>d\<in>set (safe_parse_blog_posts reg ctor blog_dir dir_exists).
         \<exists>p\<in>set ?all. truthy (slug_of p) \<and> validate_post ctor p = Inr d"
  proof
    fix d assume d: "d \<in> set (safe_parse_blog_posts reg ctor blog_dir dir_exists)"
    have "\<exists>u. unique_posts ?all = Inr u \<and> d \<in> set (validated_posts ctor u)"
    proof (cases "unique_posts ?all")
      case (Inl e)
      with d show ?thesis
        by (simp add: safe_parse_blog_posts_def get_parsers_str split: sum.splits bool.splits)
    next
      case (Inr u)
      with d show ?thesis
        by (auto simp add: safe_parse_blog_posts_def get_parsers_str split: sum.splits bool.splits)
    qed
    then obtain u where u: "unique_posts ?all = Inr u" and dv: "d \<in> set (validated_posts ctor u)"
      by blast
    from dv obtain p where p: "p \<in> set u" "validate_post ctor p = Inr d"
      by (auto simp: validated_posts_set)
    from u p(1) have "truthy (slug_of p)" "p \<in> set ?all"
      using unique_loop_kept [of "{}" ?all u p] unique_loop_member [of "{}" ?all u p]
      by (auto simp: unique_posts_def)
    with p(2) show "\<exists>p\<in>set ?all. truthy (slug_of p) \<and> validate_post ctor p = Inr d" by blast
  qed
  from 1 2 3 4 5 show ?thesis by blast
qed

theorem blog_posts_need_slug_witness:
  "slug_of (example_posts ! 1) = PStr []
   \<and> example_posts ! 1 \<notin> set [[(''title'', PStr ''From markdown''), (''slug'', PStr ''a''),
             (''content'', PStr ''one''), (''content_type'', PStr ''markdown'')],
            [(''title'', PStr ''Bad''), (''slug'', PStr ''b''),
             (''content'', PStr ''four''), (''content_type'', PStr ''markdown'')],
            [(''title'', PStr ''Other''), (''slug'', PStr ''c''),
             (''content'', PStr ''five''), (''content_type'', PStr ''markdown'')]]
   \<and> list_all (\<lambda>q. truthy (slug_of q))
        [[(''title'', PStr ''From markdown''), (''slug'', PStr ''a''),
             (''content'', PStr ''one''), (''content_type'', PStr ''markdown'')],
            [(''title'', PStr ''Bad''), (''slug'', PStr ''b''),
             (''content'', PStr ''four''), (''content_type'', PStr ''markdown'')],
            [(''title'', PStr ''Other''), (''slug'', PStr ''c''),
             (''content'', PStr ''five''), (''content_type'', PStr ''markdown'')]]"
  using blog_posts_need_slug [of "example_posts ! 1" example_posts
      "[[(''title'', PStr ''From markdown''), (''slug'', PStr ''a''),
             (''content'', PStr ''one''), (''content_type'', PStr ''markdown'')],
            [(''title'', PStr ''Bad''), (''slug'', PStr ''b''),
             (''content'', PStr ''four''), (''content_type'', PStr ''markdown'')],
            [(''title'', PStr ''Other''), (''slug'', PStr ''c''),
             (''content'', PStr ''five''), (''content_type'', PStr ''markdown'')]]"]
    example_unique_posts
  by (simp add: example_posts_def slug_of_def dict_get_def)

subsection \<open>Parser lookup by file\<close>

lemma ext_lookup_update:
  "ext_lookup (AList.update k v m) e = (if e = k then v else ext_lookup m e)"
  by (simp add: ext_lookup_def update_conv')

lemma add_extensions_lookup:
  "ext_lookup (add_extensions p exts m) e =
     (if e \<in> set exts \<and> parser_id p \<notin> set (map parser_id (ext_lookup m e))
      then ext_lookup m e @ [p] else ext_lookup m e)"
proof (induction exts arbitrary: m)
  case Nil
  then show ?case by simp
next
  case (Cons ext exts)
  define m1 where "m1 = (if map_of m ext = None then AList.update ext [] m else m)"
  define ps where "ps = (case map_of m1 ext of None \<Rightarrow> [] | Some qs \<Rightarrow> qs)"
  define m2 where "m2 = (if parser_id p \<notin> set (map parser_id ps)
                then AList.update ext (ps @ [p]) m1 else m1)"
  have step: "add_extensions p (ext # exts) m = add_extensions p exts m2"
    by (simp add: m1_def ps_def m2_def Let_def)
  have l1: "ext_lookup m1 e' = ext_lookup m e'" for e'
    by (auto simp: m1_def ext_lookup_update) (simp add: ext_lookup_def)
  have ps: "ps = ext_lookup m ext"
    using l1 [of ext] by (simp add: ps_def ext_lookup_def)
  have l2: "ext_lookup m2 e' =
      (if e' = ext \<and> parser_id p \<notin> set (map parser_id (ext_lookup m ext))
       then ext_lookup m ext @ [p] else ext_lookup m e')" for e'
    by (simp add: m2_def ext_lookup_update l1 ps)
  show ?case
    unfolding step Cons.IH [of m2] l2 by auto
qed

lemma reg_inv_empty: "reg_inv empty_registry"
  by (simp add: reg_inv_def empty_registry_def ext_lookup_def declaring_def)

lemma reg_inv_register: "reg_inv reg \<Longrightarrow> reg_inv (register p reg)"
proof -
  assume inv: "reg_inv reg"
  show ?thesis
  proof (cases "parser_id p \<in> set (map parser_id (parsers reg))")
    case True
    then show ?thesis using inv by (simp add: register_def)
  next
    case False
    have "parser_id p \<notin> set (map parser_id (ext_lookup (extension_map reg) e))" for e
      using False inv by (auto simp: reg_inv_def declaring_def)
    then show ?thesis using False inv
      by (simp add: register_def reg_inv_def add_extensions_lookup declaring_def)
  qed
qed

lemma reg_inv_foldl: "reg_inv reg \<Longrightarrow> reg_inv (foldl (\<lambda>reg p. register p reg) reg ps)"
  by (induction ps arbitrary: reg) (simp_all add: reg_inv_register)

lemma reg_inv_registry_of: "reg_inv (registry_of ps)"
  by (simp add: registry_of_def reg_inv_foldl reg_inv_empty)

lemma first_can_parse_no_raise:
  "(\<forall>p\<in>set qs. \<exists>b. can_parse p f = Inr b) \<Longrightarrow>
     first_can_parse f qs = Inr (find (\<lambda>p. can_parse p f = Inr True) qs)"
  by (induction qs) (auto split: sum.splits bool.splits)

lemma get_parser_for_file_declaring:
  assumes "reg_inv reg"
  shows "get_parser_for_file reg f =
     (case first_can_parse f (declaring reg (lower (suffix_of f))) of
        Inl e \<Rightarrow> Inl e
      | Inr (Some p) \<Rightarrow> Inr (Some p)
      | Inr None \<Rightarrow> first_can_parse f (parsers reg))"
proof -
  have "(case map_of (extension_map reg) (lower (suffix_of f)) of
           None \<Rightarrow> Inr None | Some ps \<Rightarrow> first_can_parse f ps)
        = first_can_parse f (ext_lookup (extension_map reg) (lower (suffix_of f)))"
    by (simp add: ext_lookup_def split: option.splits)
  then show ?thesis using assms
    by (simp add: get_parser_for_file_def Let_def reg_inv_def)
qed

lemma parsers_foldl_register:
  "distinct (map parser_id (parsers reg @ ps)) \<Longrightarrow>
     parsers (foldl (\<lambda>reg p. register p reg) reg ps) = parsers reg @ ps"
proof (induction ps arbitrary: reg)
  case Nil
  then show ?case by simp
next
  case (Cons p ps)
  have new: "parser_id p \<notin> set (map parser_id (parsers reg))"
    using Cons.prems by auto
  then have pr: "parsers (register p reg) = parsers reg @ [p]"
    by (simp add: register_def)
  have "distinct (map parser_id (parsers (register p reg) @ ps))"
    using Cons.prems pr by simp
  from Cons.IH [OF this] pr show ?case by simp
qed

lemma parsers_registry_of:
  "distinct (map parser_id ps) \<Longrightarrow> parsers (registry_of ps) = ps"
  using parsers_foldl_register [of empty_registry ps]
  by (simp add: registry_of_def empty_registry_def)

text \<open>
  C5. Parser lookup by file. In every registry, \<open>get_parser_for_file\<close> searches
  the parsers that declare the lower-cased suffix of the file, in registration order,
  for the first whose \<open>can_parse\<close> is true; when there is none it searches all
  registered parsers in the same way; when no parser accepts the file it returns
  \<open>None\<close>, not an error. An exception raised by a \<open>can_parse\<close> that is
  consulted propagates; when no \<open>can_parse\<close> raises the result is given by
  \<open>find\<close>. Declared extensions are compared as they are written with the
  lower-cased suffix of the file.
\<close>

theorem get_parser_for_file_spec:
  "get_parser_for_file (registry_of ps) f =
     (case first_can_parse f (declaring (registry_of ps) (lower (suffix_of f))) of
        Inl e \<Rightarrow> Inl e
      | Inr (Some p) \<Rightarrow> Inr (Some p)
      | Inr None \<Rightarrow> first_can_parse f (parsers (registry_of ps)))
   \<and> ((\<forall>p\<in>set (parsers (registry_of ps)). \<exists>b. can_parse p f = Inr b) \<longrightarrow>
        get_parser_for_file (registry_of ps) f =
          Inr (case find (\<lambda>p. can_parse p f = Inr True)
                      (declaring (registry_of ps) (lower (suffix_of f))) of
                 Some p \<Rightarrow> Some p
               | None \<Rightarrow> find (\<lambda>p. can_parse p f = Inr True) (parsers (registry_of ps))))
   \<and> ((\<forall>p\<in>set (parsers (registry_of ps)). can_parse p f = Inr False) \<longrightarrow>
        get_parser_for_file (registry_of ps) f = Inr None)
   \<and> (distinct (map parser_id ps) \<longrightarrow> parsers (registry_of ps) = ps)"
proof -
  let ?reg = "registry_of ps"
  let ?decl = "declaring ?reg (lower (suffix_of f))"
  have a: "get_parser_for_file ?reg f =
     (case first_can_parse f ?decl of
        Inl e \<Rightarrow> Inl e
      | Inr (Some p) \<Rightarrow> Inr (Some p)
      | Inr None \<Rightarrow> first_can_parse f (parsers ?reg))"
    by (rule get_parser_for_file_declaring [OF reg_inv_registry_of])
  have b: "get_parser_for_file ?reg f =
          Inr (case find (\<lambda>p. can_parse p f = Inr True) ?decl of
                 Some p \<Rightarrow> Some p
               | None \<Rightarrow> find (\<lambda>p. can_parse p f = Inr True) (parsers ?reg))"
    if h: "\<forall>p\<in>set (parsers ?reg). \<exists>b. can_parse p f = Inr b"
  proof -
    have "\<forall>p\<in>set ?decl. \<exists>b. can_parse p f = Inr b"
      using h by (simp add: declaring_def)
    from first_can_parse_no_raise [OF this] first_can_parse_no_raise [OF h] a
    show ?thesis by (simp split: option.splits)
  qed
  have c: "get_parser_for_file ?reg f = Inr None"
    if h: "\<forall>p\<in>set (parsers ?reg). can_parse p f = Inr False"
  proof -
    have nr: "\<forall>p\<in>set (parsers ?reg). \<exists>b. can_parse p f = Inr b" using h by blast
    have "find (\<lambda>p. can_parse p f = Inr True) (parsers ?reg) = None"
      using h by (simp add: find_None_iff)
    moreover have "find (\<lambda>p. can_parse p f = Inr True) ?decl = None"
      using h by (simp add: find_None_iff declaring_def)
    ultimately show ?thesis using b [OF nr] by simp
  qed
  show ?thesis using a b c parsers_registry_of by blast
qed

lemma lower_ex: "lower ''.MD'' = ''.md''" "suffix_of [''pages'', ''About.MD''] = ''.MD''"
  "suffix_of [''pages'', ''notes.txt''] = ''.txt''" "suffix_of [''blog'', ''x.ipynb''] = ''.ipynb''"
  "lower ''.txt'' = ''.txt''" "lower ''.ipynb'' = ''.ipynb''"
  by (simp_all add: lower_def lower_char_def suffix_of_def path_name_def)

lemma example_can_parse:
  "can_parse example_md_parser f
     = Inr (lower (suffix_of f) \<in> set [''.md'', ''.markdown'', ''.mdown'', ''.mkd''])"
  "can_parse example_nb_parser f
     = (if lower (suffix_of f) = ''.ipynb'' then Inl OSError else Inr False)"
  "supported_extensions example_md_parser = [''.md'', ''.markdown'', ''.mdown'', ''.mkd'']"
  "supported_extensions example_nb_parser = [''.ipynb'']"
  by (simp_all add: example_md_parser_def example_nb_parser_def)

theorem get_parser_for_file_spec_witness:
  "distinct (map parser_id [example_md_parser, example_nb_parser])
   \<and> parsers (registry_of [example_md_parser, example_nb_parser])
       = [example_md_parser, example_nb_parser]
   \<and> list_all (\<lambda>p. can_parse p [''pages'', ''notes.txt''] = Inr False)
        (parsers (registry_of [example_md_parser, example_nb_parser]))
   \<and> get_parser_for_file (registry_of [example_md_parser, example_nb_parser])
        [''pages'', ''notes.txt''] = Inr None
   \<and> get_parser_for_file (registry_of [example_md_parser, example_nb_parser])
        [''pages'', ''About.MD''] = Inr (Some example_md_parser)
   \<and> get_parser_for_file (registry_of [example_md_parser, example_nb_parser])
        [''blog'', ''x.ipynb''] = Inl OSError"
proof -
  let ?ps = "[example_md_parser, example_nb_parser]"
  have d: "distinct (map parser_id ?ps)" by (simp add: example_ids)
  from get_parser_for_file_spec [of ?ps "[''pages'', ''notes.txt'']"] d
  have p: "parsers (registry_of ?ps) = ?ps" by blast
  have f: "list_all (\<lambda>p. can_parse p [''pages'', ''notes.txt''] = Inr False) (parsers (registry_of ?ps))"
    by (simp add: p example_can_parse lower_ex)
  have f': "\<forall>p\<in>set (parsers (registry_of ?ps)). can_parse p [''pages'', ''notes.txt''] = Inr False"
    using f by (simp only: list_all_iff)
  from get_parser_for_file_spec [of ?ps "[''pages'', ''notes.txt'']"] f'
  have 1: "get_parser_for_file (registry_of ?ps) [''pages'', ''notes.txt''] = Inr None"
    by blast
  from get_parser_for_file_spec [of ?ps "[''pages'', ''About.MD'']"]
  have 2: "get_parser_for_file (registry_of ?ps) [''pages'', ''About.MD''] = Inr (Some example_md_parser)"
    by (simp add: p declaring_def example_can_parse lower_ex)
  from get_parser_for_file_spec [of ?ps "[''blog'', ''x.ipynb'']"]
  have 3: "get_parser_for_file (registry_of ?ps) [''blog'', ''x.ipynb''] = Inl OSError"
    by (simp add: p declaring_def example_can_parse lower_ex)
  from d p f 1 2 3 show ?thesis by simp
qed

subsection \<open>Meta descriptions\<close>

lemma strip_tags_plain: "CHR ''<'' \<notin> set s \<Longrightarrow> strip_tags s = s"
  by (induction s) auto

text \<open>
  C8. For a blog post item with a non-empty excerpt,
  \<open>generate_meta_description("blog_post", item)\<close> returns the excerpt with its
  tags removed (what \<open>re.sub('<[^<]+?>', '', excerpt)\<close> leaves), cut to 155
  characters, with \<open>...\<close> appended when the stripped excerpt is longer than 155
  characters, so at most 158 characters in all and the stripped excerpt itself when it
  fits. The \<open>homepage\<close> page type returns the site description as it is.
\<close>

theorem blog_post_meta_description:
  "(cfg_author cfg = Some a \<and> map_of item ''excerpt'' = Some (PStr excerpt) \<and> excerpt \<noteq> [] \<longrightarrow>
      generate_meta_description fmt cfg ''blog_post'' (Some item)
        = Inr (take 155 (strip_tags excerpt)
               @ (if 155 < length (strip_tags excerpt) then ''...'' else [])))
   \<and> (cfg_author cfg = Some a \<and> map_of item ''excerpt'' = Some (PStr excerpt) \<and> excerpt \<noteq> []
        \<and> generate_meta_description fmt cfg ''blog_post'' (Some item) = Inr r \<longrightarrow>
        length r \<le> 158 \<and> (length (strip_tags excerpt) \<le> 155 \<longrightarrow> r = strip_tags excerpt))
   \<and> (cfg_author cfg = Some a \<longrightarrow>
        generate_meta_description fmt cfg ''homepage'' any_item = Inr (site_description (cfg_site cfg)))
   \<and> (CHR ''<'' \<notin> set excerpt \<longrightarrow> strip_tags excerpt = excerpt)"
proof -
  have ne: "map_of item ''excerpt'' = Some (PStr excerpt) \<Longrightarrow> item \<noteq> []" by auto
  have 1: "cfg_author cfg = Some a \<and> map_of item ''excerpt'' = Some (PStr excerpt) \<and> excerpt \<noteq> [] \<longrightarrow>
      generate_meta_description fmt cfg ''blog_post'' (Some item)
        = Inr (take 155 (strip_tags excerpt)
               @ (if 155 < length (strip_tags excerpt) then ''...'' else []))"
    using ne by (simp add: generate_meta_description_def dict_get_def Let_def)
  have 3: "cfg_author cfg = Some a \<longrightarrow>
        generate_meta_description fmt cfg ''homepage'' any_item = Inr (site_description (cfg_site cfg))"
    by (simp add: generate_meta_description_def Let_def)
  have 2: "cfg_author cfg = Some a \<and> map_of item ''excerpt'' = Some (PStr excerpt) \<and> excerpt \<noteq> []
        \<and> generate_meta_description fmt cfg ''blog_post'' (Some item) = Inr r \<longrightarrow>
        length r \<le> 158 \<and> (length (strip_tags excerpt) \<le> 155 \<longrightarrow> r = strip_tags excerpt)"
    using 1 by auto
  from 1 2 3 strip_tags_plain show ?thesis by blast
qed

lemma strip_tags_append_plain:
  "CHR ''<'' \<notin> set xs \<Longrightarrow> strip_tags (xs @ ys) = xs @ strip_tags ys"
  by (induction xs) auto

lemma strip_tags_example_long:
  "strip_tags (''<p>'' @ replicate 200 CHR ''a'' @ ''</p>'') = replicate 200 CHR ''a''"
proof -
  have "strip_tags (''<p>'' @ replicate 200 CHR ''a'' @ ''</p>'')
      = strip_tags (replicate 200 CHR ''a'' @ ''</p>'')" by simp
  also have "\<dots> = replicate 200 CHR ''a'' @ strip_tags ''</p>''"
    by (rule strip_tags_append_plain) simp
  also have "\<dots> = replicate 200 CHR ''a''" by simp
  finally show ?thesis .
qed

theorem blog_post_meta_description_witness:
  "generate_meta_description (\<lambda>v. []) example_config ''blog_post''
       (Some [(''title'', PStr ''Post''),
              (''excerpt'', PStr (''<p>'' @ replicate 200 CHR ''a'' @ ''</p>''))])
     = Inr (replicate 155 CHR ''a'' @ ''...'')
   \<and> generate_meta_description (\<lambda>v. []) example_config ''blog_post''
       (Some [(''excerpt'', PStr ''<p>Hello <b>world</b>, 1 < 2</p>'')])
     = Inr ''Hello world, 1 < 2''
   \<and> generate_meta_description (\<lambda>v. []) example_config ''homepage'' None
     = Inr ''Personal website of Ada''"
proof -
  let ?a = "\<lparr>author_name = ''Ada'', author_title = Some ''Professor'',
          author_affiliation = Some ''University'', author_interests = Some [''Logic'', ''Proof'']\<rparr>"
  have a: "cfg_author example_config = Some ?a" by (simp add: example_config_def)
  have d: "site_description (cfg_site example_config) = ''Personal website of Ada''"
    by (simp add: example_config_def)
  have 1: "generate_meta_description (\<lambda>v. []) example_config ''blog_post''
       (Some [(''title'', PStr ''Post''),
              (''excerpt'', PStr (''<p>'' @ replicate 200 CHR ''a'' @ ''</p>''))])
     = Inr (replicate 155 CHR ''a'' @ ''...'')"
    using blog_post_meta_description [of example_config ?a
        "[(''title'', PStr ''Post''),
          (''excerpt'', PStr (''<p>'' @ replicate 200 CHR ''a'' @ ''</p>''))]"
        "''<p>'' @ replicate 200 CHR ''a'' @ ''</p>''" "\<lambda>v. []"
        "replicate 155 CHR ''a'' @ ''...''" None] a
    by (simp only: strip_tags_example_long) simp
  have 2: "generate_meta_description (\<lambda>v. []) example_config ''blog_post''
       (Some [(''excerpt'', PStr ''<p>Hello <b>world</b>, 1 < 2</p>'')])
     = Inr ''Hello world, 1 < 2''"
    using blog_post_meta_description [of example_config ?a
        "[(''excerpt'', PStr ''<p>Hello <b>world</b>, 1 < 2</p>'')]"
        "''<p>Hello <b>world</b>, 1 < 2</p>''" "\<lambda>v. []" "''Hello world, 1 < 2''" None] a
    by simp
  have 3: "generate_meta_description (\<lambda>v. []) example_config ''homepage'' None
     = Inr ''Personal website of Ada''"
    using blog_post_meta_description [of example_config ?a "[]" "[]" "\<lambda>v. []" "[]" None] a d
    by simp
  from 1 2 3 show ?thesis by simp
qed

subsection \<open>Group order on list pages\<close>

lemma mset_sorted_desc: "mset (sorted_desc f xs) = mset xs"
  by (simp add: sorted_desc_def)

lemma sorted_sorted_desc: "sorted_wrt (\<lambda>a b. f b \<le> f a) (sorted_desc f xs)"
proof -
  have "sorted (map f (sort_key f (rev xs)))" by simp
  then have "sorted_wrt (\<lambda>a b. f a \<le> f b) (sort_key f (rev xs))"
    by (simp add: sorted_wrt_map)
  then show ?thesis by (simp add: sorted_desc_def sorted_wrt_rev)
qed

lemma sorted_keys_numeric:
  assumes "\<forall>k\<in>set keys. \<exists>i. py_int k = Inr i"
  shows "sorted_keys keys = Inr (sorted_desc int_key keys)"
proof -
  have "list_all (\<lambda>k. is_ok (py_int k)) keys"
    using assms by (auto simp: list_all_iff)
  then show ?thesis by (simp add: sorted_keys_def)
qed

lemma sorted_keys_strings:
  assumes "\<forall>k\<in>set keys. is_str k" and "\<exists>k\<in>set keys. py_int k = Inl ValueError"
  shows "sorted_keys keys = Inr (sorted_desc str_key keys)"
proof -
  from assms(2) obtain k where k: "k \<in> set keys" "py_int k = Inl ValueError" by blast
  then have "\<not> is_ok (py_int k)" by simp
  with k(1) have "\<not> list_all (\<lambda>k. is_ok (py_int k)) keys"
    unfolding list_all_iff by blast
  moreover have "list_all is_str keys"
    using assms(1) by (simp add: list_all_iff)
  ultimately show ?thesis by (simp add: sorted_keys_def)
qed

lemma parse_number_limit:
  "max_str_digits < count_digits cs \<Longrightarrow> parse_number cs = None"
  by (simp add: parse_number_def)

text \<open>
  \<open>int\<close> on some texts: whitespace around the digits, a no-break space, a file
  separator (not dropped, so a \<open>ValueError\<close>), underscores and signs.
\<close>

lemma py_int_examples:
  "py_int (PStr '' 7 '') = Inr 7"
  "py_int (PStr [CHR 0xA0, CHR ''7'']) = Inr 7"
  "py_int (PStr [CHR 0x1C, CHR ''1'', CHR ''4'']) = Inl ValueError"
  "py_int (PStr ''1_000'') = Inr 1000"
  "py_int (PStr ''-12'') = Inr (- 12)"
  "py_int (PStr ''+12'') = Inr 12"
  "py_int (PStr ''_1'') = Inl ValueError"
  "py_int (PStr ''1__0'') = Inl ValueError"
  "py_int (PStr ''1_'') = Inl ValueError"
  "py_int (PStr ''- 1'') = Inl ValueError"
  "py_int (PStr ''1 2'') = Inl ValueError"
  "py_int (PStr []) = Inl ValueError"
  "py_int (PStr ''5'') = Inr 5"
  by (simp_all add: int_of_str_def strip_def is_space_def digit_of_def parse_number_def
      count_digits_def max_str_digits_def)

text \<open>
  C6. Group order on list pages. When \<open>int\<close> succeeds on every group key (numeric
  strings, integers) the group keys are a rearrangement of the keys in descending
  numeric order; when the keys are strings and \<open>int\<close> fails on one of them they
  are a rearrangement of the keys in descending lexicographic order; the groups of the
  page are listed in that key order. The year keys 2019, 2023, 2021 give the order
  2023, 2021, 2019.
\<close>

theorem group_sort_order:
  "((\<forall>k\<in>set keys. \<exists>i. py_int k = Inr i) \<longrightarrow>
      sorted_keys keys = Inr (sorted_desc int_key keys)
      \<and> mset (sorted_desc int_key keys) = mset keys
      \<and> sorted_wrt (\<lambda>a b. int_key b \<le> int_key a) (sorted_desc int_key keys))
   \<and> ((\<forall>k\<in>set keys. is_str k) \<and> (\<exists>k\<in>set keys. py_int k = Inl ValueError) \<longrightarrow>
      sorted_keys keys = Inr (sorted_desc str_key keys)
      \<and> mset (sorted_desc str_key keys) = mset keys
      \<and> sorted_wrt (\<lambda>a b. str_key b \<le> str_key a) (sorted_desc str_key keys))
   \<and> (group_loop group_by items [] = Inr grouped \<and> sorted_keys (map fst grouped) = Inr ks \<longrightarrow>
      (\<exists>groups. grouped_items group_by items = Inr groups \<and> map fst groups = ks))
   \<and> (py_int (PStr s) = Inr i \<longrightarrow> int_key (PStr s) = i \<and> int_of_str s = Some i)"
proof -
  have 3: "group_loop group_by items [] = Inr grouped \<and> sorted_keys (map fst grouped) = Inr ks \<longrightarrow>
      (\<exists>groups. grouped_items group_by items = Inr groups \<and> map fst groups = ks)"
    by (auto simp: grouped_items_def comp_def)
  have 4: "py_int (PStr s) = Inr i \<longrightarrow> int_key (PStr s) = i \<and> int_of_str s = Some i"
    by (auto simp: int_key_def split: option.splits)
  show ?thesis
    using sorted_keys_numeric [of keys] sorted_keys_strings [of keys]
      mset_sorted_desc [of int_key keys] mset_sorted_desc [of str_key keys]
      sorted_sorted_desc [of int_key keys] sorted_sorted_desc [of str_key keys] 3 4
    by blast
qed

lemma example_years:
  "group_loop ''year'' example_year_items [] =
     Inr [(PStr ''2019'', [[(''title'', PStr ''P1''), (''year'', PStr ''2019'')]]),
          (PStr ''2023'', [[(''title'', PStr ''P2''), (''year'', PStr ''2023'')],
                           [(''title'', PStr ''P4''), (''year'', PStr ''2023'')]]),
          (PStr ''2021'', [[(''title'', PStr ''P3''), (''year'', PStr ''2021'')]])]"
  by (simp add: Let_def example_year_items_def dict_get_def)

lemma example_int_keys:
  "py_int (PStr ''2019'') = Inr 2019" "py_int (PStr ''2023'') = Inr 2023"
  "py_int (PStr ''2021'') = Inr 2021"
  "py_int (PStr ''icml'') = Inl ValueError" "py_int (PStr ''neurips'') = Inl ValueError"
  "py_int (PStr ''cvpr'') = Inl ValueError"
  by (simp_all add: int_of_str_def strip_def is_space_def digit_of_def parse_number_def
      count_digits_def max_str_digits_def)

theorem group_sort_order_witness:
  "list_all (\<lambda>k. is_ok (py_int k)) [PStr ''2019'', PStr ''2023'', PStr ''2021'']
   \<and> sorted_keys [PStr ''2019'', PStr ''2023'', PStr ''2021'']
        = Inr [PStr ''2023'', PStr ''2021'', PStr ''2019'']
   \<and> grouped_items ''year'' example_year_items =
        Inr [(PStr ''2023'', [[(''title'', PStr ''P2''), (''year'', PStr ''2023'')],
                              [(''title'', PStr ''P4''), (''year'', PStr ''2023'')]]),
             (PStr ''2021'', [[(''title'', PStr ''P3''), (''year'', PStr ''2021'')]]),
             (PStr ''2019'', [[(''title'', PStr ''P1''), (''year'', PStr ''2019'')]])]
   \<and> list_all is_str [PStr ''icml'', PStr ''neurips'', PStr ''cvpr'']
   \<and> sorted_keys [PStr ''icml'', PStr ''neurips'', PStr ''cvpr'']
        = Inr [PStr ''neurips'', PStr ''icml'', PStr ''cvpr'']
   \<and> py_int (PStr [CHR 0x1C, CHR ''1'', CHR ''4'']) = Inl ValueError
   \<and> sorted_keys [PStr [CHR 0x1C, CHR ''1'', CHR ''4''], PStr ''5'']
        = Inr [PStr ''5'', PStr [CHR 0x1C, CHR ''1'', CHR ''4'']]"
proof -
  let ?sep = "[PStr [CHR 0x1C, CHR ''1'', CHR ''4''], PStr ''5'']"
  have hs: "(\<forall>k\<in>set ?sep. is_str k) \<and> (\<exists>k\<in>set ?sep. py_int k = Inl ValueError)"
    by (simp add: py_int_examples del: py_int.simps)
  from group_sort_order [of ?sep "''year''" example_year_items "[]" "[]" "''5''" 5] hs
  have 7: "sorted_keys ?sep = Inr (sorted_desc str_key ?sep)" by blast
  have 8: "sorted_desc str_key ?sep = [PStr ''5'', PStr [CHR 0x1C, CHR ''1'', CHR ''4'']]"
    by (simp add: sorted_desc_def str_key_def)
  have 9: "py_int (PStr [CHR 0x1C, CHR ''1'', CHR ''4'']) = Inl ValueError"
    by (simp only: py_int_examples)
  let ?years = "[PStr ''2019'', PStr ''2023'', PStr ''2021'']"
  let ?venues = "[PStr ''icml'', PStr ''neurips'', PStr ''cvpr'']"
  let ?g = "[(PStr ''2019'', [[(''title'', PStr ''P1''), (''year'', PStr ''2019'')]]),
          (PStr ''2023'', [[(''title'', PStr ''P2''), (''year'', PStr ''2023'')],
                           [(''title'', PStr ''P4''), (''year'', PStr ''2023'')]]),
          (PStr ''2021'', [[(''title'', PStr ''P3''), (''year'', PStr ''2021'')]])]"
  have hy: "\<forall>k\<in>set ?years. \<exists>i. py_int k = Inr i"
    by (simp add: example_int_keys del: py_int.simps)
  have hv: "(\<forall>k\<in>set ?venues. is_str k) \<and> (\<exists>k\<in>set ?venues. py_int k = Inl ValueError)"
    by (simp add: example_int_keys del: py_int.simps)
  from group_sort_order [of ?years "''year''" example_year_items ?g
      "[PStr ''2023'', PStr ''2021'', PStr ''2019'']" "''2019''" 2019] hy
  have 1: "sorted_keys ?years = Inr (sorted_desc int_key ?years)" by blast
  have 2: "sorted_desc int_key ?years = [PStr ''2023'', PStr ''2021'', PStr ''2019'']"
    by (simp add: sorted_desc_def int_key_def example_int_keys del: py_int.simps)
  from group_sort_order [of ?venues "''venue''" example_venue_items "[]" "[]" "''2019''" 2019] hv
  have 3: "sorted_keys ?venues = Inr (sorted_desc str_key ?venues)" by blast
  have 4: "sorted_desc str_key ?venues = [PStr ''neurips'', PStr ''icml'', PStr ''cvpr'']"
    by (simp add: sorted_desc_def str_key_def)
  have 5: "grouped_items ''year'' example_year_items =
        Inr [(PStr ''2023'', [[(''title'', PStr ''P2''), (''year'', PStr ''2023'')],
                              [(''title'', PStr ''P4''), (''year'', PStr ''2023'')]]),
             (PStr ''2021'', [[(''title'', PStr ''P3''), (''year'', PStr ''2021'')]]),
             (PStr ''2019'', [[(''title'', PStr ''P1''), (''year'', PStr ''2019'')]])]"
    using 1 2 by (simp add: grouped_items_def example_years group_lookup_def)
  have 6: "list_all (\<lambda>k. is_ok (py_int k)) ?years"
    by (simp add: example_int_keys del: py_int.simps)
  from 1 2 3 4 5 6 7 8 9 show ?thesis by (simp del: py_int.simps)
qed

subsection \<open>Bio loading\<close>

lemma parsers_foldl_prefix:
  "prefix (parsers reg) (parsers (foldl (\<lambda>reg p. register p reg) reg ps))"
proof (induction ps arbitrary: reg)
  case Nil
  then show ?case by simp
next
  case (Cons p ps)
  have "prefix (parsers reg) (parsers (register p reg))"
    by (simp add: register_def)
  from prefix_order.trans [OF this Cons.IH [of "register p reg"]]
  show ?case by simp
qed

lemma parsers_registry_of_Cons:
  "\<exists>rest. parsers (registry_of (p # ps)) = p # rest"
proof -
  have "parsers (register p empty_registry) = [p]"
    by (simp add: register_def empty_registry_def)
  with parsers_foldl_prefix [of "register p empty_registry" ps]
  have "prefix [p] (parsers (registry_of (p # ps)))"
    by (simp add: registry_of_def)
  then show ?thesis by (auto simp: prefix_def)
qed

lemma suffix_index_md: "lower (suffix_of (content_dir @ [''index.md''])) = ''.md''"
  by (simp add: suffix_of_def path_name_def lower_def lower_char_def)

lemma markdown_first_for_index:
  "get_parser_for_file (registry_of (markdown_parser pid ex load pd md # others))
       (content_dir @ [''index.md''])
     = Inr (Some (markdown_parser pid ex load pd md))"
proof -
  let ?m = "markdown_parser pid ex load pd md"
  let ?f = "content_dir @ [''index.md'']"
  obtain rest where rest: "parsers (registry_of (?m # others)) = ?m # rest"
    using parsers_registry_of_Cons by blast
  have cp: "can_parse ?m ?f = Inr True"
    by (simp add: markdown_parser_def suffix_index_md)
  have decl: "''.md'' \<in> set (supported_extensions ?m)"
    by (simp add: markdown_parser_def)
  have "first_can_parse ?f (declaring (registry_of (?m # others)) ''.md'') = Inr (Some ?m)"
    using cp decl by (simp add: declaring_def rest)
  then show ?thesis
    using get_parser_for_file_declaring [OF reg_inv_registry_of, of "?m # others" ?f]
    by (simp add: suffix_index_md)
qed

lemma markdown_parse_file_empty:
  "\<not> ex f \<or> load f = Inl e \<Longrightarrow> parse_file (markdown_parser pid ex load pd md) f = Inr []"
  by (auto simp: markdown_parser_def markdown_parse_file_def)

lemma bio_body_fallback:
  "get_parser_for_file reg (content_dir @ [''index.md'']) = Inr None
     \<or> (\<exists>p. get_parser_for_file reg (content_dir @ [''index.md'']) = Inr (Some p)
            \<and> parse_file p (content_dir @ [''index.md'']) = Inr []) \<Longrightarrow>
   bio_body reg cfg bio_ctor content_dir =
     Inr (case cfg_author cfg of Some a \<Rightarrow> config_bio a | None \<Rightarrow> bio_default)"
  by (auto simp: bio_body_def Let_def split: option.splits)

text \<open>
  C4. Bio loading never raises: it always returns a dictionary. When no parser is
  found for \<open>index.md\<close> or the parser returns nothing for it (the markdown parser
  does so when the file is absent and when its front matter fails to load) the result
  is built from the author section of the configuration, and it is the all-empty
  default when the configuration has no author section. The markdown parser is the
  one found for \<open>index.md\<close> when it is registered first. An exception raised on the
  way (by a parser, or by the \<open>Bio\<close> constructor) gives the all-empty default.
\<close>

theorem bio_fallback_chain:
  "(\<exists>bio. safe_parse_bio_data reg cfg bio_ctor content_dir = Inr bio)
   \<and> (get_parser_for_file reg (content_dir @ [''index.md'']) = Inr None
        \<or> (\<exists>p. get_parser_for_file reg (content_dir @ [''index.md'']) = Inr (Some p)
               \<and> parse_file p (content_dir @ [''index.md'']) = Inr [])
      \<longrightarrow> safe_parse_bio_data reg cfg bio_ctor content_dir
            = Inr (case cfg_author cfg of Some a \<Rightarrow> config_bio a | None \<Rightarrow> bio_default))
   \<and> (\<not> file_exists (content_dir @ [''index.md''])
        \<or> load (content_dir @ [''index.md'']) = Inl e
      \<longrightarrow> safe_parse_bio_data
             (registry_of (markdown_parser pid file_exists load parse_dir markdown # others))
             cfg bio_ctor content_dir
            = Inr (case cfg_author cfg of Some a \<Rightarrow> config_bio a | None \<Rightarrow> bio_default))
   \<and> (bio_body reg cfg bio_ctor content_dir = Inl e'
      \<longrightarrow> safe_parse_bio_data reg cfg bio_ctor content_dir = Inr bio_default)
   \<and> list_all (\<lambda>(k, v). \<not> truthy v) bio_default"
proof -
  let ?f = "content_dir @ [''index.md'']"
  let ?fb = "Inr (case cfg_author cfg of Some a \<Rightarrow> config_bio a | None \<Rightarrow> bio_default)"
  have 1: "\<exists>bio. safe_parse_bio_data reg cfg bio_ctor content_dir = Inr bio"
    by (cases "bio_body reg cfg bio_ctor content_dir") (simp_all add: safe_parse_bio_data_def)
  have 2: "safe_parse_bio_data reg cfg bio_ctor content_dir = ?fb"
    if "get_parser_for_file reg ?f = Inr None
        \<or> (\<exists>p. get_parser_for_file reg ?f = Inr (Some p) \<and> parse_file p ?f = Inr [])"
    using bio_body_fallback [OF that, of cfg bio_ctor] by (simp add: safe_parse_bio_data_def)
  have 3: "safe_parse_bio_data
             (registry_of (markdown_parser pid file_exists load parse_dir markdown # others))
             cfg bio_ctor content_dir = ?fb"
    if h: "\<not> file_exists ?f \<or> load ?f = Inl e"
  proof -
    let ?m = "markdown_parser pid file_exists load parse_dir markdown"
    have "get_parser_for_file (registry_of (?m # others)) ?f = Inr (Some ?m)"
      by (rule markdown_first_for_index)
    moreover have "parse_file ?m ?f = Inr []"
      using markdown_parse_file_empty [of file_exists ?f load e pid parse_dir markdown] h
      by blast
    ultimately show ?thesis
      using bio_body_fallback [of "registry_of (?m # others)" content_dir cfg bio_ctor]
      by (simp add: safe_parse_bio_data_def)
  qed
  have 4: "bio_body reg cfg bio_ctor content_dir = Inl e'
      \<longrightarrow> safe_parse_bio_data reg cfg bio_ctor content_dir = Inr bio_default"
    by (simp add: safe_parse_bio_data_def)
  have 5: "list_all (\<lambda>(k, v). \<not> truthy v) bio_default"
    by (simp add: bio_default_def)
  from 1 2 3 4 5 show ?thesis by blast
qed

theorem bio_fallback_chain_witness:
  "safe_parse_bio_data
      (registry_of [markdown_parser 0 (\<lambda>f. False) (\<lambda>f. Inl OSError) (\<lambda>d t. Inr [])
                      (\<lambda>c exts. Inr c), example_nb_parser])
      example_config (\<lambda>kwargs. Inr kwargs) [''site'']
     = Inr [(''bio'', PStr []), (''interests'', PList [PStr ''Logic'', PStr ''Proof'']),
            (''title'', PStr ''Professor''), (''affiliation'', PStr ''University'')]
   \<and> safe_parse_bio_data
      (registry_of [markdown_parser 0 (\<lambda>f. True) (\<lambda>f. Inl ValueError) (\<lambda>d t. Inr [])
                      (\<lambda>c exts. Inr c), example_nb_parser])
      \<lparr>cfg_author = None, cfg_site = \<lparr>site_description = []\<rparr>\<rparr> (\<lambda>kwargs. Inr kwargs) [''site'']
     = Inr [(''bio'', PStr []), (''tagline'', PStr []), (''interests'', PList [])]
   \<and> safe_parse_bio_data
      (registry_of [markdown_parser 0 (\<lambda>f. True)
                      (\<lambda>f. Inr ([(''tagline'', PStr ''Hello'')], ''About me'')) (\<lambda>d t. Inr [])
                      (\<lambda>c exts. Inr c), example_nb_parser])
      example_config (\<lambda>kwargs. Inl ValueError) [''site'']
     = Inr [(''bio'', PStr []), (''tagline'', PStr []), (''interests'', PList [])]"
proof -
  have a: "cfg_author example_config = Some example_author"
    by (simp add: example_config_def example_author_def)
  have cb: "config_bio example_author
     = [(''bio'', PStr []), (''interests'', PList [PStr ''Logic'', PStr ''Proof'']),
        (''title'', PStr ''Professor''), (''affiliation'', PStr ''University'')]"
    by (simp add: config_bio_def example_author_def)
  have 1: "safe_parse_bio_data
      (registry_of [markdown_parser 0 (\<lambda>f. False) (\<lambda>f. Inl OSError) (\<lambda>d t. Inr [])
                      (\<lambda>c exts. Inr c), example_nb_parser])
      example_config (\<lambda>kwargs. Inr kwargs) [''site'']
     = Inr (config_bio example_author)"
    using bio_fallback_chain [where reg = empty_registry and cfg = example_config
        and bio_ctor = "\<lambda>kwargs. Inr kwargs" and content_dir = "[''site'']"
        and file_exists = "\<lambda>f. False" and load = "\<lambda>f. Inl OSError" and e = OSError
        and pid = 0 and parse_dir = "\<lambda>d t. Inr []" and markdown = "\<lambda>c exts. Inr c"
        and others = "[example_nb_parser]" and e' = OSError] a
    by simp
  have 2: "safe_parse_bio_data
      (registry_of [markdown_parser 0 (\<lambda>f. True) (\<lambda>f. Inl ValueError) (\<lambda>d t. Inr [])
                      (\<lambda>c exts. Inr c), example_nb_parser])
      \<lparr>cfg_author = None, cfg_site = \<lparr>site_description = []\<rparr>\<rparr> (\<lambda>kwargs. Inr kwargs) [''site'']
     = Inr bio_default"
    using bio_fallback_chain [where reg = empty_registry
        and cfg = "\<lparr>cfg_author = None, cfg_site = \<lparr>site_description = []\<rparr>\<rparr>"
        and bio_ctor = "\<lambda>kwargs. Inr kwargs" and content_dir = "[''site'']"
        and file_exists = "\<lambda>f. True" and load = "\<lambda>f. Inl ValueError" and e = ValueError
        and pid = 0 and parse_dir = "\<lambda>d t. Inr []" and markdown = "\<lambda>c exts. Inr c"
        and others = "[example_nb_parser]" and e' = OSError]
    by simp
  let ?reg3 = "registry_of [markdown_parser 0 (\<lambda>f. True)
                      (\<lambda>f. Inr ([(''tagline'', PStr ''Hello'')], ''About me'')) (\<lambda>d t. Inr [])
                      (\<lambda>c exts. Inr c), example_nb_parser]"
  have b3: "bio_body ?reg3 example_config (\<lambda>kwargs. Inl ValueError) [''site''] = Inl ValueError"
    using markdown_first_for_index [of 0 "\<lambda>f. True"
        "\<lambda>f. Inr ([(''tagline'', PStr ''Hello'')], ''About me'')" "\<lambda>d t. Inr []"
        "\<lambda>c exts. Inr c" "[example_nb_parser]" "[''site'']"]
    by (simp add: bio_body_def Let_def markdown_parser_def markdown_parse_file_def
        bio_from_raw_def dict_get_default_def a example_author_def)
  have 3: "safe_parse_bio_data ?reg3 example_config (\<lambda>kwargs. Inl ValueError) [''site'']
     = Inr bio_default"
    using bio_fallback_chain [where reg = ?reg3 and cfg = example_config
        and bio_ctor = "\<lambda>kwargs. Inl ValueError" and content_dir = "[''site'']"
        and file_exists = "\<lambda>f. True" and load = "\<lambda>f. Inl ValueError" and e = ValueError
        and pid = 0 and parse_dir = "\<lambda>d t. Inr []" and markdown = "\<lambda>c exts. Inr c"
        and others = "[example_nb_parser]" and e' = ValueError] b3
    by blast
  from 1 2 3 show ?thesis by (simp add: cb bio_default_def)
qed

subsection \<open>The item processor\<close>

lemma dict_get_set: "dict_get (dict_set k v d) k' = (if k' = k then v else dict_get d k')"
  by (simp add: dict_get_def dict_set_def update_conv')

lemma has_key_set: "has_key (dict_set k v d) k' \<longleftrightarrow> k' = k \<or> has_key d k'"
  by (simp add: has_key_def dict_set_def update_conv')

lemma dict_get_default_set:
  "dict_get_default (dict_set k v d) k' dflt = (if k' = k then v else dict_get_default d k' dflt)"
  by (simp add: dict_get_default_def dict_set_def update_conv')

lemma map_of_resolve_item_paths:
  "map_of (resolve_item_paths d) k =
     (case map_of d k of
        None \<Rightarrow> None
      | Some v \<Rightarrow>
          Some (case v of
                  PStr s \<Rightarrow> (if k \<in> set path_fields \<and> s \<noteq> [] then PStr (resolve_path s) else v)
                | w \<Rightarrow> v))"
  unfolding resolve_item_paths_def
  by (induction d) (auto split: pyval.splits)

lemma has_key_resolve: "has_key (resolve_item_paths d) k = has_key d k"
  by (simp add: has_key_def map_of_resolve_item_paths split: option.splits)

lemma dict_get_resolve_other:
  "k \<notin> set path_fields \<Longrightarrow> dict_get (resolve_item_paths d) k = dict_get d k"
  by (simp add: dict_get_def map_of_resolve_item_paths split: option.splits pyval.splits)

lemma dict_get_default_resolve_other:
  "k \<notin> set path_fields \<Longrightarrow>
     dict_get_default (resolve_item_paths d) k dflt = dict_get_default d k dflt"
  by (simp add: dict_get_default_def map_of_resolve_item_paths split: option.splits pyval.splits)

lemma dict_get_resolve_path:
  "k \<in> set path_fields \<Longrightarrow> dict_get d k = PStr s \<Longrightarrow> s \<noteq> [] \<Longrightarrow>
     dict_get (resolve_item_paths d) k = PStr (resolve_path s)"
  by (simp add: dict_get_def map_of_resolve_item_paths split: option.splits pyval.splits)

lemma process_keys_other:
  "process_keys g t ct skip keys d = Inr d' \<Longrightarrow> k \<notin> set keys \<Longrightarrow>
     dict_get d' k = dict_get d k \<and> has_key d' k = has_key d k
     \<and> dict_get_default d' k dflt = dict_get_default d k dflt"
proof (induction g t ct skip keys d rule: process_keys.induct)
  case (1 g item_type content_type skip item_dict)
  then show ?case by simp
next
  case (2 g item_type content_type skip key keys item_dict)
  then show ?case
    by (auto split: pyval.splits if_splits sum.splits
        simp: dict_get_set has_key_set dict_get_default_set)
qed

lemma process_keys_has_key:
  "process_keys g t ct skip keys d = Inr d' \<Longrightarrow> has_key d k \<Longrightarrow> has_key d' k"
proof (induction g t ct skip keys d rule: process_keys.induct)
  case (1 g item_type content_type skip item_dict)
  then show ?case by simp
next
  case (2 g item_type content_type skip key keys item_dict)
  then show ?case
    by (auto split: pyval.splits if_splits sum.splits simp: has_key_set)
qed

lemma process_item_steps:
  assumes "process_item g t seo d = Inr d'"
  obtains d3 d5 where
    "process_markdown_fields g t (resolve_item_paths (store_raw_content d)) = Inr d3"
    "render_item g t seo d3 = Inr d5" "attach_schema t seo d5 = Inr d'"
  using assms unfolding process_item_def by (auto split: sum.splits)

lemma store_raw_content_other:
  "k \<noteq> ''content_raw'' \<Longrightarrow> dict_get (store_raw_content d) k = dict_get d k"
  "k \<noteq> ''content_raw'' \<Longrightarrow>
     dict_get_default (store_raw_content d) k dflt = dict_get_default d k dflt"
  by (simp_all add: store_raw_content_def dict_get_set dict_get_default_set)

lemma process_markdown_fields_other:
  "process_markdown_fields g t d = Inr d' \<Longrightarrow>
     k \<notin> set [''content'', ''description'', ''excerpt''] \<Longrightarrow>
     dict_get d' k = dict_get d k \<and> has_key d' k = has_key d k
     \<and> dict_get_default d' k dflt = dict_get_default d k dflt"
  unfolding process_markdown_fields_def Let_def
  by (rule process_keys_other)

lemma render_item_other:
  "render_item g t seo d = Inr d' \<Longrightarrow> k \<noteq> ''template_type'' \<Longrightarrow> k \<noteq> ''rendered_html'' \<Longrightarrow>
     dict_get d' k = dict_get d k \<and> has_key d' k = has_key d k
     \<and> dict_get_default d' k dflt = dict_get_default d k dflt"
  unfolding render_item_def Let_def
  by (auto split: if_splits sum.splits simp: dict_get_set has_key_set dict_get_default_set)


lemma attach_schema_other:
  "attach_schema t seo d = Inr d' \<Longrightarrow> k \<noteq> ''rendered_schema'' \<Longrightarrow>
     dict_get d' k = dict_get d k \<and> has_key d' k = has_key d k
     \<and> dict_get_default d' k dflt = dict_get_default d k dflt"
  unfolding attach_schema_def Let_def
  by (auto split: if_splits sum.splits option.splits
      simp: dict_get_set has_key_set dict_get_default_set)


lemma process_item_untouched:
  assumes "process_item g t seo d = Inr d'" and "untouched k"
  shows "dict_get d' k = dict_get d k"
    and "dict_get_default d' k dflt = dict_get_default d k dflt"
proof -
  from assms(1) obtain d3 d5 where
    s: "process_markdown_fields g t (resolve_item_paths (store_raw_content d)) = Inr d3"
       "render_item g t seo d3 = Inr d5" "attach_schema t seo d5 = Inr d'"
    by (rule process_item_steps)
  have k: "k \<notin> set path_fields" "k \<noteq> ''content_raw''"
    "k \<notin> set [''content'', ''description'', ''excerpt'']"
    "k \<noteq> ''template_type''" "k \<noteq> ''rendered_html''" "k \<noteq> ''rendered_schema''"
    using assms(2) by (auto simp: untouched_def)
  show "dict_get d' k = dict_get d k"
    using attach_schema_other [OF s(3) k(6)] render_item_other [OF s(2) k(4) k(5)]
      process_markdown_fields_other [OF s(1) k(3)] dict_get_resolve_other [OF k(1)]
      store_raw_content_other(1) [OF k(2)]
    by simp
  show "dict_get_default d' k dflt = dict_get_default d k dflt"
    using attach_schema_other [OF s(3) k(6)] render_item_other [OF s(2) k(4) k(5)]
      process_markdown_fields_other [OF s(1) k(3)] dict_get_default_resolve_other [OF k(1)]
      store_raw_content_other(2) [OF k(2)]
    by simp
qed

lemma untouched_names: "untouched ''template_name''" "untouched ''content_type''"
  by (simp_all add: untouched_def path_fields_def)


lemma is_ok_iff: "is_ok r \<longleftrightarrow> (\<exists>x. r = Inr x)"
  by (cases r) auto

lemma process_content_field_total:
  "hashable ct \<Longrightarrow> \<exists>r. process_content_field g v ct = Inr r"
  by (auto simp: process_content_field_def get_parsers_for_content_type_def hashable_iff
      split: sum.splits option.splits)

lemma process_keys_total:
  "hashable ct \<Longrightarrow> \<exists>d'. process_keys g t ct skip keys d = Inr d'"
proof (induction g t ct skip keys d rule: process_keys.induct)
  case (1 g item_type content_type skip item_dict)
  then show ?case by simp
next
  case (2 g item_type content_type skip key keys item_dict)
  show ?case
  proof (cases "dict_get item_dict key")
    case (PStr v)
    from process_content_field_total [OF "2.prems", of g v]
    obtain r where r: "process_content_field g v content_type = Inr r" by blast
    from PStr r 2 show ?thesis by auto
  qed (use 2 in auto)
qed

lemma dict_get_default_eq:
  "dict_get_default d k dflt = (if has_key d k then dict_get d k else dflt)"
  by (simp add: dict_get_default_def dict_get_def has_key_def split: option.splits)

lemma process_item_total:
  assumes "well_typed_item d" and "schemas_total seo"
  shows "\<exists>d'. process_item g t seo d = Inr d'"
proof -
  let ?d2 = "resolve_item_paths (store_raw_content d)"
  have ct: "dict_get ?d2 ''content_type'' = dict_get d ''content_type''"
    by (simp add: dict_get_resolve_other store_raw_content_other path_fields_def)
  have "hashable (dict_get_default ?d2 ''content_type'' (PStr t))"
    using assms(1) ct by (simp add: dict_get_default_eq well_typed_item_def)
  from process_keys_total [OF this]
  obtain d3 where d3: "process_markdown_fields g t ?d2 = Inr d3"
    unfolding process_markdown_fields_def Let_def by blast
  have "dict_get d3 ''template_name'' = dict_get d ''template_name''"
    using process_markdown_fields_other [OF d3, of "''template_name''"]
    by (simp add: dict_get_resolve_other store_raw_content_other path_fields_def)
  then have "hashable (template_type_of t d3)"
    using assms(1) by (simp add: template_type_of_def well_typed_item_def)
  then obtain h where "hash_key (template_type_of t d3) = Inr h"
    by (auto simp: hashable_iff)
  then have "\<exists>d5. render_item g t seo d3 = Inr d5"
    by (simp add: render_item_def Let_def)
  then obtain d5 where d5: "render_item g t seo d3 = Inr d5" by blast
  have "\<exists>d'. attach_schema t seo d5 = Inr d'"
  proof (cases seo)
    case None
    then show ?thesis by (simp add: attach_schema_def Let_def)
  next
    case (Some s)
    let ?d = "dict_set ''rendered_schema'' (PStr []) d5"
    from assms(2) Some obtain a b where
      "scholarly_article_schema s ?d = Inr a" "software_application_schema s ?d = Inr b"
      unfolding schemas_total_def is_ok_iff by (simp split: option.splits) blast
    with Some show ?thesis by (simp add: attach_schema_def Let_def)
  qed
  then obtain d' where "attach_schema t seo d5 = Inr d'" by blast
  with d3 d5 show ?thesis by (simp add: process_item_def)
qed

lemma process_item_well_typed:
  "process_item g t seo d = Inr d' \<Longrightarrow> well_typed_item d \<Longrightarrow> well_typed_item d'"
  using process_item_untouched(1) [of g t seo d d'] untouched_names
  by (simp add: well_typed_item_def)

lemma item_dict_of_cases:
  assumes "item_dict_of it st = Inr (a, st1)"
  shows "(it = DictRef a \<and> st1 = st)
     \<or> (a = next_addr st \<and> next_addr st1 = Suc (next_addr st)
         \<and> (\<exists>d. (it = Entity d \<or> it = Other (Inr d)) \<and> objects st1 = (objects st)(a := d)))"
proof (cases it)
  case (DictRef b)
  with assms show ?thesis by simp
next
  case (Entity d)
  with assms show ?thesis by (auto simp: alloc_def)
next
  case (Other od)
  with assms show ?thesis by (cases od) (auto simp: alloc_def)
qed

lemma process_loop_step:
  assumes "process_loop g t seo (it # items) st = Inr (st', addrs)"
  obtains a st1 d addrs' where
    "item_dict_of it st = Inr (a, st1)"
    "process_item g t seo (objects st1 a) = Inr d"
    "process_loop g t seo items (st1\<lparr>objects := (objects st1)(a := d)\<rparr>) = Inr (st', addrs')"
    "addrs = a # addrs'"
  using assms by (auto split: sum.splits prod.splits)

lemma process_loop_length:
  "process_loop g t seo items st = Inr (st', addrs) \<Longrightarrow> length addrs = length items"
proof (induction items arbitrary: st addrs)
  case Nil
  then show ?case by simp
next
  case (Cons it items)
  from Cons.prems obtain a st1 d addrs' where
    s: "process_loop g t seo items (st1\<lparr>objects := (objects st1)(a := d)\<rparr>) = Inr (st', addrs')"
       "addrs = a # addrs'"
    by (rule process_loop_step)
  from Cons.IH [OF s(1)] s(2) show ?case by simp
qed

lemma process_loop_next:
  "process_loop g t seo items st = Inr (st', addrs) \<Longrightarrow> next_addr st \<le> next_addr st'"
proof (induction items arbitrary: st addrs)
  case Nil
  then show ?case by simp
next
  case (Cons it items)
  from Cons.prems obtain a st1 d addrs' where
    s: "item_dict_of it st = Inr (a, st1)"
       "process_loop g t seo items (st1\<lparr>objects := (objects st1)(a := d)\<rparr>) = Inr (st', addrs')"
    by (rule process_loop_step)
  from item_dict_of_cases [OF s(1)] have "next_addr st \<le> next_addr st1" by auto
  with Cons.IH [OF s(2)] show ?case by simp
qed

lemma process_loop_frame:
  "process_loop g t seo items st = Inr (st', addrs) \<Longrightarrow> b \<notin> set addrs \<Longrightarrow>
     objects st' b = objects st b"
proof (induction items arbitrary: st addrs)
  case Nil
  then show ?case by simp
next
  case (Cons it items)
  from Cons.prems(1) obtain a st1 d addrs' where
    s: "item_dict_of it st = Inr (a, st1)"
       "process_loop g t seo items (st1\<lparr>objects := (objects st1)(a := d)\<rparr>) = Inr (st', addrs')"
       "addrs = a # addrs'"
    by (rule process_loop_step)
  have ba: "b \<noteq> a" "b \<notin> set addrs'" using Cons.prems(2) s(3) by auto
  from item_dict_of_cases [OF s(1)] ba(1) have "objects st1 b = objects st b" by auto
  with Cons.IH [OF s(2) ba(2)] ba(1) show ?case by simp
qed

lemma process_loop_addrs:
  "process_loop g t seo items st = Inr (st', addrs) \<Longrightarrow> b \<in> set addrs \<Longrightarrow>
     DictRef b \<in> set items \<or> next_addr st \<le> b"
proof (induction items arbitrary: st addrs)
  case Nil
  then show ?case by simp
next
  case (Cons it items)
  from Cons.prems(1) obtain a st1 d addrs' where
    s: "item_dict_of it st = Inr (a, st1)"
       "process_loop g t seo items (st1\<lparr>objects := (objects st1)(a := d)\<rparr>) = Inr (st', addrs')"
       "addrs = a # addrs'"
    by (rule process_loop_step)
  show ?case
  proof (cases "b = a")
    case True
    with item_dict_of_cases [OF s(1)] show ?thesis by auto
  next
    case False
    then have "b \<in> set addrs'" using Cons.prems(2) s(3) by simp
    from Cons.IH [OF s(2) this] item_dict_of_cases [OF s(1)] show ?thesis by auto
  qed
qed



lemma process_loop_total:
  "\<forall>it\<in>set items. item_ok st it \<Longrightarrow> schemas_total seo \<Longrightarrow>
     \<exists>st' addrs. process_loop g t seo items st = Inr (st', addrs)"
proof (induction items arbitrary: st)
  case Nil
  then show ?case by simp
next
  case (Cons it items)
  have ok: "item_ok st it" using Cons.prems(1) by simp
  have "\<exists>a st1. item_dict_of it st = Inr (a, st1) \<and> well_typed_item (objects st1 a)"
  proof (cases it)
    case (DictRef b)
    with ok show ?thesis by simp
  next
    case (Entity d)
    with ok show ?thesis by (simp add: alloc_def)
  next
    case (Other od)
    with ok show ?thesis by (cases od) (simp_all add: alloc_def)
  qed
  then obtain a st1 where a: "item_dict_of it st = Inr (a, st1)"
    and wt: "well_typed_item (objects st1 a)" by blast
  from process_item_total [OF wt Cons.prems(2)]
  obtain d where d: "process_item g t seo (objects st1 a) = Inr d" by blast
  let ?st = "st1\<lparr>objects := (objects st1)(a := d)\<rparr>"
  have wd: "well_typed_item d" using process_item_well_typed [OF d wt] .
  have "\<forall>it'\<in>set items. item_ok ?st it'"
  proof
    fix it' assume i: "it' \<in> set items"
    then have ok': "item_ok st it'" using Cons.prems(1) by simp
    show "item_ok ?st it'"
    proof (cases it')
      case (DictRef b)
      show ?thesis
      proof (cases "b = a")
        case True
        with DictRef wd show ?thesis by simp
      next
        case False
        with item_dict_of_cases [OF a] have "objects st1 b = objects st b" by auto
        with DictRef ok' False show ?thesis by simp
      qed
    next
      case (Entity d')
      with ok' show ?thesis by simp
    next
      case (Other od)
      with ok' show ?thesis by (cases od) simp_all
    qed
  qed
  from Cons.IH [OF this Cons.prems(2)]
  obtain st' addrs where "process_loop g t seo items ?st = Inr (st', addrs)" by blast
  with a d show ?case by simp
qed

lemma process_loop_entity:
  "process_loop g t seo items st = Inr (st', addrs) \<Longrightarrow>
   \<forall>b. DictRef b \<in> set items \<longrightarrow> b < next_addr st \<Longrightarrow>
   i < length items \<Longrightarrow> items ! i = Entity d \<Longrightarrow>
     process_item g t seo d = Inr (objects st' (addrs ! i))"
proof (induction items arbitrary: st addrs i)
  case Nil
  then show ?case by simp
next
  case (Cons it items)
  from Cons.prems(1) obtain a st1 d1 addrs' where
    s: "item_dict_of it st = Inr (a, st1)"
       "process_item g t seo (objects st1 a) = Inr d1"
       "process_loop g t seo items (st1\<lparr>objects := (objects st1)(a := d1)\<rparr>) = Inr (st', addrs')"
       "addrs = a # addrs'"
    by (rule process_loop_step)
  let ?st = "st1\<lparr>objects := (objects st1)(a := d1)\<rparr>"
  have nx: "next_addr st \<le> next_addr ?st"
    using item_dict_of_cases [OF s(1)] by auto
  have wf: "\<forall>b. DictRef b \<in> set items \<longrightarrow> b < next_addr ?st"
    using Cons.prems(2) nx by auto
  show ?case
  proof (cases i)
    case 0
    then have it: "it = Entity d" using Cons.prems(4) by simp
    with s(1) have a: "a = next_addr st" "objects st1 a = d" "next_addr st1 = Suc (next_addr st)"
      by (auto simp: alloc_def)
    have "a \<notin> set addrs'"
    proof
      assume "a \<in> set addrs'"
      from process_loop_addrs [OF s(3) this] Cons.prems(2) a show False by auto
    qed
    from process_loop_frame [OF s(3) this] s(2) a(2) 0 s(4) show ?thesis by simp
  next
    case (Suc j)
    then have "j < length items" "items ! j = Entity d" using Cons.prems(3,4) by simp_all
    from Cons.IH [OF s(3) wf this] Suc s(4) show ?thesis by simp
  qed
qed

lemmas example_eval =
  returned_items_def process_items_def process_item_def example_store_def
  alloc_def store_raw_content_def resolve_item_paths_def path_fields_def has_key_def
  process_markdown_fields_def Let_def dict_get_def dict_get_default_def render_item_def
  template_type_of_def dict_set_def attach_schema_def example_seo_def example_generator_def
  resolve_path_def is_external_url_def startswith_def removeprefix_def process_again_def
  process_content_field_def get_parsers_for_content_type_def



lemma process_item_content_raw:
  assumes "process_item g t seo d = Inr d'"
  shows "dict_get d' ''content_raw'' = dict_get (store_raw_content d) ''content_raw''"
    and "has_key d' ''content_raw'' = has_key (store_raw_content d) ''content_raw''"
proof -
  from assms obtain d3 d5 where
    s: "process_markdown_fields g t (resolve_item_paths (store_raw_content d)) = Inr d3"
       "render_item g t seo d3 = Inr d5" "attach_schema t seo d5 = Inr d'"
    by (rule process_item_steps)
  have np: "''content_raw'' \<notin> set path_fields" by (simp add: path_fields_def)
  show "dict_get d' ''content_raw'' = dict_get (store_raw_content d) ''content_raw''"
    using attach_schema_other [OF s(3), of "''content_raw''"]
      render_item_other [OF s(2), of "''content_raw''"]
      process_markdown_fields_other [OF s(1), of "''content_raw''"]
      dict_get_resolve_other [OF np]
    by simp
  show "has_key d' ''content_raw'' = has_key (store_raw_content d) ''content_raw''"
    using attach_schema_other [OF s(3), of "''content_raw''"]
      render_item_other [OF s(2), of "''content_raw''"]
      process_markdown_fields_other [OF s(1), of "''content_raw''"]
      has_key_resolve [of "store_raw_content d" "''content_raw''"]
    by simp
qed

lemma store_raw_content_new:
  "has_key d ''content'' \<Longrightarrow> \<not> has_key d ''content_raw'' \<Longrightarrow>
     dict_get (store_raw_content d) ''content_raw'' = dict_get d ''content''
     \<and> has_key (store_raw_content d) ''content_raw''"
  by (simp add: store_raw_content_def dict_get_set has_key_set)

lemma store_raw_content_kept:
  "has_key d ''content_raw'' \<Longrightarrow> store_raw_content d = d"
  by (simp add: store_raw_content_def)

lemma process_item_keeps_raw:
  assumes "process_item g t seo d = Inr d'" and "has_key d ''content''"
    and "\<not> has_key d ''content_raw''"
  shows "dict_get d' ''content_raw'' = dict_get d ''content''" and "has_key d' ''content_raw''"
  using process_item_content_raw [OF assms(1)] store_raw_content_new [OF assms(2,3)]
  by simp_all

lemma process_item_raw_unchanged:
  assumes "process_item g t seo d = Inr d'" and "has_key d ''content_raw''"
  shows "dict_get d' ''content_raw'' = dict_get d ''content_raw''" and "has_key d' ''content_raw''"
  using process_item_content_raw [OF assms(1)] store_raw_content_kept [OF assms(2)] assms(2)
  by simp_all

lemma rerender_content_eq:
  assumes "has_key post ''content_raw''" and "dict_get post ''content_raw'' = PStr raw"
  shows "rerender_content g post =
     (case process_content_field g raw (dict_get_default post ''content_type'' (PStr ''blog_post'')) of
        Inl e \<Rightarrow> Inl e
      | Inr html \<Rightarrow> Inr (dict_set ''content'' (PStr html) post))"
  using assms by (auto simp: rerender_content_def has_key_def dict_get_def split: option.splits)

lemma process_items_loop:
  "process_items g t seo items st = process_loop g t seo items st"
  by (simp add: process_items_def)

lemma process_loop_entities:
  assumes "process_loop g t seo items st = Inr (st', addrs)"
    and "\<forall>it\<in>set items. \<exists>d. it = Entity d"
  shows "map (\<lambda>a. Inr (objects st' a)) addrs
       = map (\<lambda>it. case it of Entity d \<Rightarrow> process_item g t seo d | other \<Rightarrow> Inl TypeError) items"
proof (rule nth_equalityI)
  show "length (map (\<lambda>a. Inr (objects st' a)) addrs)
      = length (map (\<lambda>it. case it of Entity d \<Rightarrow> process_item g t seo d | other \<Rightarrow> Inl TypeError) items)"
    using process_loop_length [OF assms(1)] by simp
next
  fix i assume "i < length (map (\<lambda>a. Inr (objects st' a)) addrs)"
  then have i: "i < length items" "i < length addrs"
    using process_loop_length [OF assms(1)] by simp_all
  then obtain d where d: "items ! i = Entity d" using assms(2) by (metis nth_mem)
  have wf: "\<forall>b. DictRef b \<in> set items \<longrightarrow> b < next_addr st" using assms(2) by auto
  from process_loop_entity [OF assms(1) wf i(1) d] i d
  show "map (\<lambda>a. Inr (objects st' a)) addrs ! i
      = map (\<lambda>it. case it of Entity d \<Rightarrow> process_item g t seo d | other \<Rightarrow> Inl TypeError) items ! i"
    by simp
qed

text \<open>
  C3, as the code has it. When an item has \<open>content\<close> and no \<open>content_raw\<close> the
  item processor stores the original content under \<open>content_raw\<close> before any
  transformation, and it never changes an existing \<open>content_raw\<close>, so after a second
  run over the processed record \<open>content_raw\<close> still holds the original content; the
  blog post pass renders \<open>content\<close> from \<open>content_raw\<close>, whatever the earlier runs
  left in \<open>content\<close>. Processing typed entities, whose dictionaries are created afresh
  on every call, a second time returns the same records as the first time.
\<close>

theorem raw_content_preserved:
  "(process_item g t seo d = Inr d' \<and> has_key d ''content'' \<and> \<not> has_key d ''content_raw'' \<longrightarrow>
      has_key d' ''content_raw'' \<and> dict_get d' ''content_raw'' = dict_get d ''content'')
   \<and> (process_item g t seo d = Inr d' \<and> has_key d ''content_raw'' \<longrightarrow>
      dict_get d' ''content_raw'' = dict_get d ''content_raw'')
   \<and> (process_item g t seo d = Inr d' \<and> process_item g t seo d' = Inr d''
        \<and> has_key d ''content'' \<and> \<not> has_key d ''content_raw'' \<and> dict_get d ''content'' = PStr raw \<longrightarrow>
      dict_get d'' ''content_raw'' = PStr raw
      \<and> rerender_content g d'' =
          (case process_content_field g raw (dict_get_default d ''content_type'' (PStr ''blog_post'')) of
             Inl e \<Rightarrow> Inl e
           | Inr html \<Rightarrow> Inr (dict_set ''content'' (PStr html) d'')))
   \<and> ((\<forall>it\<in>set items. \<exists>e. it = Entity e)
        \<and> process_items g t seo items st = Inr (st1, ps1)
        \<and> process_items g t seo items st1 = Inr (st2, ps2) \<longrightarrow>
      map (objects st2) ps2 = map (objects st1) ps1)"
proof -
  have 1: "process_item g t seo d = Inr d' \<and> has_key d ''content'' \<and> \<not> has_key d ''content_raw'' \<longrightarrow>
      has_key d' ''content_raw'' \<and> dict_get d' ''content_raw'' = dict_get d ''content''"
    using process_item_keeps_raw [of g t seo d d'] by blast
  have 2: "process_item g t seo d = Inr d' \<and> has_key d ''content_raw'' \<longrightarrow>
      dict_get d' ''content_raw'' = dict_get d ''content_raw''"
    using process_item_raw_unchanged [of g t seo d d'] by blast
  have 3: "dict_get d'' ''content_raw'' = PStr raw
      \<and> rerender_content g d'' =
          (case process_content_field g raw (dict_get_default d ''content_type'' (PStr ''blog_post'')) of
             Inl e \<Rightarrow> Inl e
           | Inr html \<Rightarrow> Inr (dict_set ''content'' (PStr html) d''))"
    if h: "process_item g t seo d = Inr d'" "process_item g t seo d' = Inr d''"
      "has_key d ''content''" "\<not> has_key d ''content_raw''" "dict_get d ''content'' = PStr raw"
  proof -
    from process_item_keeps_raw [OF h(1) h(3) h(4)] h(5)
    have a: "dict_get d' ''content_raw'' = PStr raw" "has_key d' ''content_raw''" by simp_all
    from process_item_raw_unchanged [OF h(2) a(2)] a(1)
    have b: "dict_get d'' ''content_raw'' = PStr raw" "has_key d'' ''content_raw''" by simp_all
    have "dict_get_default d'' ''content_type'' (PStr ''blog_post'')
        = dict_get_default d ''content_type'' (PStr ''blog_post'')"
      using process_item_untouched(2) [OF h(1) untouched_names(2)]
        process_item_untouched(2) [OF h(2) untouched_names(2)] by simp
    with rerender_content_eq [OF b(2) b(1), of g] b(1) show ?thesis by simp
  qed
  have 4: "map (objects st2) ps2 = map (objects st1) ps1"
    if h: "\<forall>it\<in>set items. \<exists>e. it = Entity e"
      "process_items g t seo items st = Inr (st1, ps1)"
      "process_items g t seo items st1 = Inr (st2, ps2)"
  proof -
    have l: "process_loop g t seo items st = Inr (st1, ps1)"
      "process_loop g t seo items st1 = Inr (st2, ps2)"
      using h(2,3) by (simp_all add: process_items_loop)
    from process_loop_entities [OF l(1) h(1)] process_loop_entities [OF l(2) h(1)]
    have "map (\<lambda>a. (Inr (objects st2 a) :: error + dict)) ps2
        = map (\<lambda>a. Inr (objects st1 a)) ps1" by simp
    then have e: "map Inr (map (objects st2) ps2)
        = (map Inr (map (objects st1) ps1) :: (error + dict) list)"
      by (simp add: comp_def)
    have "inj (Inr :: dict \<Rightarrow> error + dict)" by simp
    from inj_map_eq_map [OF this] e show ?thesis by blast
  qed
  from 1 2 3 4 show ?thesis by blast
qed

lemma example_processors:
  "get_content_processor example_md_parser ct = None"
  "get_content_processor example_nb_parser ct = None"
  by (simp_all add: example_md_parser_def example_nb_parser_def)

lemmas example_eval2 = example_eval example_registry_parsers example_content_types
  example_processors

text \<open>
  Processing the same dictionary a second time starts from what the first run left:
  the path \<open>static/static/a.png\<close> is resolved to \<open>static/a.png\<close> by the first
  run and to \<open>a.png\<close> by the second, so the two runs do not return the same field
  values. (The description is likewise given to the markdown rendering a second time.)
\<close>

theorem reprocessing_counterexample:
  "map (\<lambda>d. dict_get d ''image'')
       (returned_items (process_items example_generator ''project_item'' None
          [DictRef 1] example_store))
     = [PStr ''static/a.png'']
   \<and> map (\<lambda>d. dict_get d ''image'')
       (returned_items (process_again example_generator ''project_item'' None [DictRef 1]
          (process_items example_generator ''project_item'' None [DictRef 1] example_store)))
     = [PStr ''a.png'']"
  by (simp add: example_eval2)

theorem raw_content_preserved_witness:
  "has_key example_post ''content''
   \<and> \<not> has_key example_post ''content_raw''
   \<and> process_item example_generator ''blog_post_item'' None example_post = Inr example_post_once
   \<and> dict_get example_post_once ''content_raw'' = PStr ''# Hi''
   \<and> process_item example_generator ''blog_post_item'' None example_post_once
        = Inr example_post_twice
   \<and> dict_get example_post_twice ''content_raw'' = PStr ''# Hi''
   \<and> rerender_content example_generator example_post_twice
        = Inr (dict_set ''content'' (PStr ''<p># Hi</p>'') example_post_twice)
   \<and> returned_items (process_again example_generator ''blog_post_item'' None [Entity example_post]
          (process_items example_generator ''blog_post_item'' None [Entity example_post]
             example_store))
      = returned_items (process_items example_generator ''blog_post_item'' None
          [Entity example_post] example_store)"
proof -
  let ?g = example_generator
  let ?t = "''blog_post_item''"
  have h1: "has_key example_post ''content''" "\<not> has_key example_post ''content_raw''"
    "dict_get example_post ''content'' = PStr ''# Hi''"
    by (simp_all add: example_post_def has_key_def dict_get_def)
  have p1: "process_item ?g ?t None example_post = Inr example_post_once"
    by (simp add: example_eval2 example_post_def example_post_once_def)
  have p2: "process_item ?g ?t None example_post_once = Inr example_post_twice"
    by (simp add: example_eval2 example_post_once_def example_post_twice_def)
  have pf: "process_content_field ?g ''# Hi'' (dict_get_default example_post ''content_type''
      (PStr ''blog_post'')) = Inr ''<p># Hi</p>''"
    by (simp add: example_eval2 example_post_def)
  have wt: "\<forall>it\<in>set [Entity example_post]. item_ok example_store it"
    by (simp add: well_typed_item_def example_post_def dict_get_def)
  from process_loop_total [OF wt, of None ?g ?t]
  obtain st1 ps1 where r1: "process_items ?g ?t None [Entity example_post] example_store
      = Inr (st1, ps1)" by (auto simp: schemas_total_def process_items_loop)
  have wt1: "\<forall>it\<in>set [Entity example_post]. item_ok st1 it"
    by (simp add: well_typed_item_def example_post_def dict_get_def)
  from process_loop_total [OF wt1, of None ?g ?t]
  obtain st2 ps2 where r2: "process_items ?g ?t None [Entity example_post] st1
      = Inr (st2, ps2)" by (auto simp: schemas_total_def process_items_loop)
  note inst = raw_content_preserved [of ?g ?t None example_post example_post_once
      example_post_twice "''# Hi''" "[Entity example_post]" example_store st1 ps1 st2 ps2]
  from inst h1 p1 have a: "dict_get example_post_once ''content_raw'' = PStr ''# Hi''"
    by simp
  from inst h1 p1 p2 have b: "dict_get example_post_twice ''content_raw'' = PStr ''# Hi''"
    and c: "rerender_content ?g example_post_twice =
          (case process_content_field ?g ''# Hi''
                  (dict_get_default example_post ''content_type'' (PStr ''blog_post'')) of
             Inl e \<Rightarrow> Inl e
           | Inr html \<Rightarrow> Inr (dict_set ''content'' (PStr html) example_post_twice))"
    by blast+
  from inst r1 r2 have d: "map (objects st2) ps2 = map (objects st1) ps1" by simp
  have e: "returned_items (process_again ?g ?t None [Entity example_post]
          (process_items ?g ?t None [Entity example_post] example_store))
      = returned_items (process_items ?g ?t None [Entity example_post] example_store)"
    using d by (simp add: r1 r2 process_again_def returned_items_def)
  from h1 p1 p2 a b c pf e show ?thesis by simp
qed

end
